theory Spec2Isabelle
  imports Complex_Main
begin

section \<open>Values, frames and dictionaries\<close>

text \<open>
  The function under study is \<^verbatim>\<open>HttpTrigger/__init__.py\<close>: \<^verbatim>\<open>main\<close> decodes a request,
  \<^verbatim>\<open>process_excel_file\<close> reads every sheet of a workbook with pandas and computes the
  statistics of its numeric columns, and \<^verbatim>\<open>create_summary_excel\<close> writes a new workbook
  with openpyxl.

  A finite Python float is the real number it denotes (\<open>Float\<close>); the extra value NaN is
  how pandas stores a missing number and what it returns from a statistic of nothing. The
  arithmetic of binary floating point is not the source's: what pandas computes for
  \<^verbatim>\<open>mean\<close>, \<^verbatim>\<open>median\<close> and \<^verbatim>\<open>std\<close>, and what \<^verbatim>\<open>float\<close> and \<^verbatim>\<open>round\<close> make of a number, is
  taken from the library (the record \<open>library\<close> below), never computed over the reals.
\<close>

datatype pyfloat = Float real | NaN

text \<open>A cell value as pandas hands it out in \<^verbatim>\<open>df.values\<close>.\<close>

datatype scalar =
    Number pyfloat
  | Text string
  | Boolean bool
  | Temporal int
  | Missing

text \<open>
  A column of a DataFrame carries its dtype. A column of dtype \<^verbatim>\<open>int64\<close> or \<^verbatim>\<open>float64\<close>
  holds numbers, a missing entry being NaN (\<open>NumSeries\<close>). A column of dtype
  \<^verbatim>\<open>timedelta64\<close>, which \<^verbatim>\<open>read_excel\<close> builds from cells holding durations, holds lengths
  of time in nanoseconds, a missing entry being NaT (\<open>DeltaSeries\<close>). Every other dtype
  (object, bool, datetime64) is an \<open>ObjSeries\<close>.
  \<^verbatim>\<open>select_dtypes(include=['number'])\<close> keeps the first two kinds: for numpy,
  \<^verbatim>\<open>timedelta64\<close> is a subtype of its signed integers.
\<close>

datatype series =
    NumSeries "pyfloat list"
  | DeltaSeries "int option list"
  | ObjSeries "scalar list"

record dataframe =
  df_columns :: "(string \<times> series) list"

fun series_values :: "series \<Rightarrow> scalar list" where
  "series_values (NumSeries vs) = map Number vs"
| "series_values (DeltaSeries ds) = map (\<lambda>d. case d of None \<Rightarrow> Missing | Some t \<Rightarrow> Temporal t) ds"
| "series_values (ObjSeries vs) = vs"

fun is_number :: "series \<Rightarrow> bool" where
  "is_number (NumSeries vs) = True"
| "is_number (DeltaSeries ds) = True"
| "is_number (ObjSeries vs) = False"

text \<open>\<^verbatim>\<open>len(df)\<close>: the number of rows. A frame read from a sheet without columns has none.\<close>

definition df_len :: "dataframe \<Rightarrow> nat" where
  "df_len df = (case df_columns df of [] \<Rightarrow> 0 | c # cs \<Rightarrow> length (series_values (snd c)))"

text \<open>\<^verbatim>\<open>df.select_dtypes(include=['number']).columns.tolist()\<close>\<close>

definition numeric_cols :: "dataframe \<Rightarrow> string list" where
  "numeric_cols df = map fst (filter (\<lambda>c. is_number (snd c)) (df_columns df))"

text \<open>\<^verbatim>\<open>df[col]\<close>, a \<^verbatim>\<open>KeyError\<close> when there is no such label.\<close>

definition df_getitem :: "dataframe \<Rightarrow> string \<Rightarrow> string + series" where
  "df_getitem df col =
     (case map_of (df_columns df) col of
        None \<Rightarrow> Inl (''KeyError: '' @ col)
      | Some s \<Rightarrow> Inr s)"

text \<open>\<^verbatim>\<open>df.columns.get_loc(col)\<close>: the position of the label.\<close>

fun get_loc :: "(string \<times> series) list \<Rightarrow> string \<Rightarrow> nat option" where
  "get_loc [] col = None"
| "get_loc (c # cs) col =
     (if fst c = col then Some 0
      else (case get_loc cs col of None \<Rightarrow> None | Some i \<Rightarrow> Some (Suc i)))"

text \<open>\<^verbatim>\<open>df.values\<close>: the rows of the frame, each aligned to the columns.\<close>

definition df_values :: "dataframe \<Rightarrow> scalar list list" where
  "df_values df =
     map (\<lambda>i. map (\<lambda>c. series_values (snd c) ! i) (df_columns df)) [0..<df_len df]"

text \<open>
  A Python \<^verbatim>\<open>dict\<close> keeps its keys in insertion order; \<^verbatim>\<open>d[k] = v\<close> replaces the value of
  a key that is present, in place, and appends a new key.
\<close>

fun dict_set :: "'k \<Rightarrow> 'v \<Rightarrow> ('k \<times> 'v) list \<Rightarrow> ('k \<times> 'v) list" where
  "dict_set k v [] = [(k, v)]"
| "dict_set k v (p # ps) = (if fst p = k then (k, v) # ps else p # dict_set k v ps)"

section \<open>The workbook openpyxl builds\<close>

text \<open>
  Sheets in order, each with its cells (a dictionary from (row, column) to the cell), its
  charts with their anchors and its column widths.
\<close>

record font =
  font_color :: "string option"
  font_bold :: bool
  font_size :: "nat option"

record pattern_fill =
  start_color :: string
  end_color :: string
  fill_type :: string

record cell =
  cell_value :: scalar
  cell_fill :: "pattern_fill option"
  cell_font :: "font option"

record reference =
  ref_min_col :: nat
  ref_min_row :: nat
  ref_max_row :: nat

record bar_chart =
  chart_title :: string
  y_axis_title :: string
  x_axis_title :: string
  chart_data :: "reference list"

record worksheet =
  ws_title :: string
  ws_cells :: "((nat \<times> nat) \<times> cell) list"
  ws_charts :: "(bar_chart \<times> string) list"
  ws_widths :: "(nat \<times> nat) list"

type_synonym workbook = "worksheet list"

section \<open>The libraries\<close>

text \<open>
  What pandas finds in the bytes of the upload: \<^verbatim>\<open>pd.ExcelFile\<close> either raises or lists the
  sheets in order, and \<^verbatim>\<open>pd.read_excel\<close> of each sheet either raises (\<open>Inl\<close>, with the
  text of the exception) or gives its frame.
\<close>

type_synonym sheet_read = "string + dataframe"

datatype excel_data = NotWorkbook string | Workbook "(string \<times> sheet_read) list"

text \<open>
  What the libraries decide and the source does not. From pandas and Python: the value of
  \<^verbatim>\<open>float(col_data.mean())\<close>, of \<^verbatim>\<open>float(col_data.median())\<close> and of
  \<^verbatim>\<open>float(col_data.std(ddof))\<close> on the values of a column, computed in binary floating point
  (\<open>ddof\<close> is the number pandas takes off the divisor, 1 when \<^verbatim>\<open>std\<close> is called without
  argument); the double \<^verbatim>\<open>float\<close> makes of a number (the number itself when it is a
  double); the text of the \<^verbatim>\<open>TypeError\<close> that \<^verbatim>\<open>float\<close> raises on a \<^verbatim>\<open>Timedelta\<close>; and
  what \<^verbatim>\<open>base64.b64decode\<close> makes of the request's content. From openpyxl: which sheet
  titles and cell values it refuses (it raises on them), whether building a chart raises,
  whether saving the workbook raises, and the length of \<^verbatim>\<open>str(value)\<close> (\<open>None\<close> when
  taking it raises). They are parameters of the model.
\<close>

record library =
  b64decode :: "string \<Rightarrow> string + excel_data"
  series_mean :: "real list \<Rightarrow> pyfloat"
  series_median :: "real list \<Rightarrow> pyfloat"
  series_std :: "nat \<Rightarrow> real list \<Rightarrow> pyfloat"
  py_float :: "real \<Rightarrow> pyfloat"
  float_error :: string
  title_error :: "string \<Rightarrow> string option"
  value_error :: "scalar \<Rightarrow> string option"
  chart_error :: "string \<Rightarrow> string option"
  save_error :: "workbook \<Rightarrow> string option"
  str_len :: "scalar \<Rightarrow> nat option"

section \<open>The statistics of a column\<close>

text \<open>\<^verbatim>\<open>Series.dropna()\<close>: the values that are not missing, in order.\<close>

fun dropna :: "pyfloat list \<Rightarrow> real list" where
  "dropna [] = []"
| "dropna (Float x # vs) = x # dropna vs"
| "dropna (NaN # vs) = dropna vs"

fun dropna_delta :: "int option list \<Rightarrow> int list" where
  "dropna_delta [] = []"
| "dropna_delta (Some t # ds) = t # dropna_delta ds"
| "dropna_delta (None # ds) = dropna_delta ds"

text \<open>
  \<^verbatim>\<open>Series.min()\<close> and \<^verbatim>\<open>Series.max()\<close> pick one of the values, NaN when there is none, and
  \<^verbatim>\<open>float\<close> converts it.
\<close>

definition pd_min :: "real list \<Rightarrow> pyfloat" where
  "pd_min xs = (case xs of [] \<Rightarrow> NaN | x # r \<Rightarrow> Float (fold min r x))"

definition pd_max :: "real list \<Rightarrow> pyfloat" where
  "pd_max xs = (case xs of [] \<Rightarrow> NaN | x # r \<Rightarrow> Float (fold max r x))"

fun to_float :: "library \<Rightarrow> pyfloat \<Rightarrow> pyfloat" where
  "to_float lib (Float x) = py_float lib x"
| "to_float lib NaN = NaN"

section \<open>process_excel_file: the loop over the sheets\<close>

text \<open>The dictionary stored for one column (lines 84 to 91).\<close>

record col_stats =
  stat_mean :: pyfloat
  stat_median :: pyfloat
  stat_std :: pyfloat
  stat_min :: pyfloat
  stat_max :: pyfloat
  stat_count :: nat

type_synonym sheet_stats = "(string \<times> col_stats) list"

definition column_stats :: "library \<Rightarrow> real list \<Rightarrow> col_stats" where
  "column_stats lib col_data =
     \<lparr> stat_mean = series_mean lib col_data,
       stat_median = series_median lib col_data,
       stat_std = (if length col_data > 1 then series_std lib 1 col_data else Float 0),
       stat_min = to_float lib (pd_min col_data),
       stat_max = to_float lib (pd_max col_data),
       stat_count = length col_data \<rparr>"

text \<open>
  The loop of lines 81 to 91 over \<^verbatim>\<open>numeric_cols\<close>. On a column of durations that has a
  value, \<^verbatim>\<open>col_data.mean()\<close> is a \<^verbatim>\<open>Timedelta\<close> and \<^verbatim>\<open>float\<close> raises on it. A label that
  \<^verbatim>\<open>df[col]\<close> resolves to a column of another dtype cannot come out of \<^verbatim>\<open>select_dtypes\<close>
  when the labels are distinct; the statistics of such a column raise.
\<close>

fun stats_loop ::
  "library \<Rightarrow> dataframe \<Rightarrow> string list \<Rightarrow> sheet_stats \<Rightarrow> string + sheet_stats" where
  "stats_loop lib df [] sheet_stats = Inr sheet_stats"
| "stats_loop lib df (col # cols) sheet_stats =
     (case df_getitem df col of
        Inl e \<Rightarrow> Inl e
      | Inr (ObjSeries vs) \<Rightarrow> Inl (''TypeError: '' @ col)
      | Inr (DeltaSeries ds) \<Rightarrow>
          (let col_data = dropna_delta ds in
           if length col_data > 0
           then Inl (float_error lib)
           else stats_loop lib df cols sheet_stats)
      | Inr (NumSeries vs) \<Rightarrow>
          (let col_data = dropna vs in
           if length col_data > 0
           then stats_loop lib df cols (dict_set col (column_stats lib col_data) sheet_stats)
           else stats_loop lib df cols sheet_stats))"

text \<open>
  The result record of \<^verbatim>\<open>process_excel_file\<close>. The generated workbook is kept as the
  structure openpyxl would serialise (serialisation and base64 are codecs at the boundary).
\<close>

record results =
  filename :: string
  sheets_processed :: "string list"
  summary :: "(string \<times> sheet_stats) list"
  charts_created :: bool
  output_file :: "workbook option"
  output_filename :: "string option"

type_synonym all_data = "(string \<times> dataframe) list"

text \<open>
  The body of the \<^verbatim>\<open>try\<close> of lines 71 to 95, up to the three assignments: \<open>Inl\<close> when
  it raises, \<open>Inr None\<close> when the sheet has no numeric column, \<open>Inr (Some (stats, df))\<close>
  when the statistics were computed.
\<close>

definition sheet_body ::
  "library \<Rightarrow> sheet_read \<Rightarrow> string + (sheet_stats \<times> dataframe) option" where
  "sheet_body lib rd =
     (case rd of
        Inl e \<Rightarrow> Inl e
      | Inr df \<Rightarrow>
          (if numeric_cols df \<noteq> []
           then (case stats_loop lib df (numeric_cols df) [] of
                   Inl e \<Rightarrow> Inl e
                 | Inr sheet_stats \<Rightarrow> Inr (Some (sheet_stats, df)))
           else Inr None))"

definition error_entry :: "string \<Rightarrow> string \<Rightarrow> string" where
  "error_entry sheet_name e = sheet_name @ '' (ERROR: '' @ e @ '')''"

text \<open>One iteration of the loop of line 70, with its \<^verbatim>\<open>except\<close>.\<close>

definition process_sheet ::
  "library \<Rightarrow> string \<times> sheet_read \<Rightarrow> results \<times> all_data \<Rightarrow> results \<times> all_data" where
  "process_sheet lib sh st =
     (case sheet_body lib (snd sh) of
        Inr (Some (sheet_stats, df)) \<Rightarrow>
          ((fst st)\<lparr> summary := dict_set (fst sh) sheet_stats (summary (fst st)),
                     sheets_processed := sheets_processed (fst st) @ [fst sh] \<rparr>,
           dict_set (fst sh) df (snd st))
      | Inr None \<Rightarrow> st
      | Inl e \<Rightarrow>
          ((fst st)\<lparr> sheets_processed := sheets_processed (fst st) @ [error_entry (fst sh) e] \<rparr>,
           snd st))"

fun process_sheets ::
  "library \<Rightarrow> (string \<times> sheet_read) list \<Rightarrow> results \<times> all_data \<Rightarrow> results \<times> all_data" where
  "process_sheets lib [] st = st"
| "process_sheets lib (sh # shs) st = process_sheets lib shs (process_sheet lib sh st)"

definition init_results :: "string \<Rightarrow> results" where
  "init_results fname =
     \<lparr> filename = fname, sheets_processed = [], summary = [], charts_created = False,
       output_file = None, output_filename = None \<rparr>"

section \<open>create_summary_excel: the report\<close>

text \<open>A loop whose body may raise: the first exception ends it.\<close>

fun efold :: "('a \<Rightarrow> 's \<Rightarrow> 'e + 's) \<Rightarrow> 'a list \<Rightarrow> 's \<Rightarrow> 'e + 's" where
  "efold f [] s = Inr s"
| "efold f (x # xs) s = (case f x s of Inl e \<Rightarrow> Inl e | Inr s' \<Rightarrow> efold f xs s')"

text \<open>\<^verbatim>\<open>wb.create_sheet(title)\<close>: a new, empty sheet.\<close>

definition create_sheet :: "library \<Rightarrow> string \<Rightarrow> string + worksheet" where
  "create_sheet lib title =
     (case title_error lib title of
        Some e \<Rightarrow> Inl e
      | None \<Rightarrow> Inr \<lparr> ws_title = title, ws_cells = [], ws_charts = [], ws_widths = [] \<rparr>)"

definition blank_cell :: cell where
  "blank_cell = \<lparr> cell_value = Missing, cell_fill = None, cell_font = None \<rparr>"

text \<open>\<^verbatim>\<open>ws.cell(row=r, column=c)\<close>: the cell at that place, created empty when it is new.\<close>

definition get_cell :: "worksheet \<Rightarrow> nat \<times> nat \<Rightarrow> cell" where
  "get_cell ws rc = (case map_of (ws_cells ws) rc of None \<Rightarrow> blank_cell | Some cl \<Rightarrow> cl)"

definition put_cell :: "worksheet \<Rightarrow> nat \<times> nat \<Rightarrow> cell \<Rightarrow> worksheet" where
  "put_cell ws rc cl = ws\<lparr> ws_cells := dict_set rc cl (ws_cells ws) \<rparr>"

text \<open>\<^verbatim>\<open>ws.cell(row=r, column=c, value=v)\<close>\<close>

definition write_cell :: "library \<Rightarrow> worksheet \<Rightarrow> nat \<Rightarrow> nat \<Rightarrow> scalar \<Rightarrow> string + worksheet" where
  "write_cell lib ws r c v =
     (case value_error lib v of
        Some e \<Rightarrow> Inl e
      | None \<Rightarrow> Inr (put_cell ws (r, c) ((get_cell ws (r, c))\<lparr> cell_value := v \<rparr>)))"

definition header_fill :: pattern_fill where
  "header_fill = \<lparr> start_color = ''366092'', end_color = ''366092'', fill_type = ''solid'' \<rparr>"

definition header_font :: font where
  "header_font = \<lparr> font_color = Some ''FFFFFF'', font_bold = True, font_size = None \<rparr>"

text \<open>A header cell: the value, then the fill and the font (lines 136 to 138, 160 to 162).\<close>

definition header_cell :: "library \<Rightarrow> worksheet \<Rightarrow> nat \<Rightarrow> nat \<Rightarrow> string \<Rightarrow> string + worksheet" where
  "header_cell lib ws r c header =
     (case write_cell lib ws r c (Text header) of
        Inl e \<Rightarrow> Inl e
      | Inr ws' \<Rightarrow>
          Inr (put_cell ws' (r, c)
                 ((get_cell ws' (r, c))\<lparr> cell_fill := Some header_fill, cell_font := Some header_font \<rparr>)))"

text \<open>
  Python's \<^verbatim>\<open>round(x, 2)\<close>: the exact value of \<open>x\<close> goes to the nearest multiple of
  \<open>1/100\<close>, a tie going to the even one, and the result is the double of that decimal.
\<close>

definition py_round :: "real \<Rightarrow> nat \<Rightarrow> real" where
  "py_round x nd =
     (let y = x * 10 ^ nd; f = \<lfloor>y\<rfloor>; d = y - of_int f in
      (if d < 1 / 2 then of_int f
       else if d > 1 / 2 then of_int f + 1
       else if even f then of_int f else of_int f + 1) / 10 ^ nd)"

fun round2 :: "library \<Rightarrow> pyfloat \<Rightarrow> pyfloat" where
  "round2 lib (Float x) = py_float lib (py_round x 2)"
| "round2 lib NaN = NaN"

definition headers :: "string list" where
  "headers = [''Column'', ''Mean'', ''Median'', ''Std Dev'', ''Min'', ''Max'', ''Count'']"

text \<open>One data row of the summary sheet (lines 143 to 150).\<close>

definition stats_row ::
  "library \<Rightarrow> string \<times> col_stats \<Rightarrow> worksheet \<times> nat \<Rightarrow> string + worksheet \<times> nat" where
  "stats_row lib item st =
     (let row = snd st; col_stats = snd item in
      case efold (\<lambda>cv ws. write_cell lib ws row (fst cv) (snd cv))
             [(1, Text (fst item)),
              (2, Number (round2 lib (stat_mean col_stats))),
              (3, Number (round2 lib (stat_median col_stats))),
              (4, Number (round2 lib (stat_std col_stats))),
              (5, Number (round2 lib (stat_min col_stats))),
              (6, Number (round2 lib (stat_max col_stats))),
              (7, Number (Float (real (stat_count col_stats))))]
             (fst st) of
        Inl e \<Rightarrow> Inl e
      | Inr ws \<Rightarrow> Inr (ws, row + 1))"

text \<open>The block of one analysed sheet on the summary sheet (lines 128 to 152).\<close>

definition summary_block ::
  "library \<Rightarrow> string \<times> sheet_stats \<Rightarrow> worksheet \<times> nat \<Rightarrow> string + worksheet \<times> nat" where
  "summary_block lib item st =
     (let row = snd st in
      case write_cell lib (fst st) row 1 (Text (''Sheet: '' @ fst item)) of
        Inl e \<Rightarrow> Inl e
      | Inr ws1 \<Rightarrow>
          (let ws2 = put_cell ws1 (row, 1)
                       ((get_cell ws1 (row, 1))
                          \<lparr> cell_font := Some \<lparr> font_color = None, font_bold = True, font_size = Some 14 \<rparr> \<rparr>);
               row2 = row + 2 in
           case efold (\<lambda>ch ws. header_cell lib ws row2 (fst ch) (snd ch)) (enumerate 1 headers) ws2 of
             Inl e \<Rightarrow> Inl e
           | Inr ws3 \<Rightarrow>
               (case efold (stats_row lib) (snd item) (ws3, row2 + 1) of
                  Inl e \<Rightarrow> Inl e
                | Inr st4 \<Rightarrow> Inr (fst st4, snd st4 + 2))))"

text \<open>
  The chart of lines 169 to 185. Everything between \<^verbatim>\<open>try\<close> and \<^verbatim>\<open>ws.add_chart\<close> only builds
  the chart object, so an exception anywhere in it leaves the sheet as it was.
\<close>

definition build_chart :: "library \<Rightarrow> string \<Rightarrow> dataframe \<Rightarrow> string \<Rightarrow> string + bar_chart" where
  "build_chart lib sheet_name df col =
     (case chart_error lib sheet_name of
        Some e \<Rightarrow> Inl e
      | None \<Rightarrow>
          (case get_loc (df_columns df) col of
             None \<Rightarrow> Inl (''KeyError: '' @ col)
           | Some loc \<Rightarrow>
               Inr \<lparr> chart_title = ''Data Overview - '' @ sheet_name,
                     y_axis_title = ''Values'',
                     x_axis_title = ''Records'',
                     chart_data = [\<lparr> ref_min_col = loc + 1, ref_min_row = 2,
                                     ref_max_row = min 20 (df_len df + 1) \<rparr>] \<rparr>))"

definition add_chart :: "library \<Rightarrow> string \<Rightarrow> dataframe \<Rightarrow> worksheet \<Rightarrow> worksheet" where
  "add_chart lib sheet_name df ws =
     (let numeric_cols5 = take 5 (numeric_cols df) in
      if length numeric_cols5 > 0 \<and> df_len df > 1
      then (case build_chart lib sheet_name df (hd numeric_cols5) of
              Inl e \<Rightarrow> ws
            | Inr chart \<Rightarrow> ws\<lparr> ws_charts := ws_charts ws @ [(chart, ''H2'')] \<rparr>)
      else ws)"

text \<open>The copy of one retained table (lines 156 to 185).\<close>

definition original_sheet :: "library \<Rightarrow> string \<times> dataframe \<Rightarrow> string + worksheet" where
  "original_sheet lib item =
     (let sheet_name = fst item; df = snd item in
      case create_sheet lib (''Original_'' @ sheet_name) of
        Inl e \<Rightarrow> Inl e
      | Inr ws \<Rightarrow>
          (case efold (\<lambda>ch ws. header_cell lib ws 1 (fst ch) (snd ch))
                  (enumerate 1 (map fst (df_columns df))) ws of
             Inl e \<Rightarrow> Inl e
           | Inr ws1 \<Rightarrow>
               (case efold (\<lambda>rr ws. efold (\<lambda>cv ws. write_cell lib ws (fst rr) (fst cv) (snd cv))
                                       (enumerate 1 (snd rr)) ws)
                       (enumerate 2 (df_values df)) ws1 of
                  Inl e \<Rightarrow> Inl e
                | Inr ws2 \<Rightarrow> Inr (add_chart lib sheet_name df ws2))))"

text \<open>
  The column widths (lines 188 to 199). \<^verbatim>\<open>sheet.columns\<close> walks the grid from (1, 1) to
  (max row, max column) and creates the cells that are not there yet, empty.
\<close>

definition max_row :: "worksheet \<Rightarrow> nat" where
  "max_row ws = fold max (map (\<lambda>p. fst (fst p)) (ws_cells ws)) 0"

definition max_column :: "worksheet \<Rightarrow> nat" where
  "max_column ws = fold max (map (\<lambda>p. snd (fst p)) (ws_cells ws)) 0"

definition touch_cell :: "nat \<times> nat \<Rightarrow> worksheet \<Rightarrow> worksheet" where
  "touch_cell rc ws =
     (case map_of (ws_cells ws) rc of None \<Rightarrow> put_cell ws rc blank_cell | Some cl \<Rightarrow> ws)"

definition column_width :: "library \<Rightarrow> scalar list \<Rightarrow> nat" where
  "column_width lib vals =
     min (fold (\<lambda>v max_length.
                  case str_len lib v of
                    None \<Rightarrow> max_length
                  | Some n \<Rightarrow> if n > max_length then n else max_length) vals 0 + 2) 50"

definition adjust_column :: "library \<Rightarrow> nat \<Rightarrow> nat \<Rightarrow> worksheet \<Rightarrow> worksheet" where
  "adjust_column lib rows c ws =
     (let ws' = fold (\<lambda>r. touch_cell (r, c)) [1..<Suc rows] ws in
      ws'\<lparr> ws_widths :=
             dict_set c (column_width lib (map (\<lambda>r. cell_value (get_cell ws' (r, c))) [1..<Suc rows]))
               (ws_widths ws') \<rparr>)"

definition adjust_widths :: "library \<Rightarrow> worksheet \<Rightarrow> worksheet" where
  "adjust_widths lib ws = fold (adjust_column lib (max_row ws)) [1..<Suc (max_column ws)] ws"

text \<open>
  \<^verbatim>\<open>create_summary_excel\<close>. The sheets are built one after the other and each is finished
  before the next is created, so the workbook is the list of the finished sheets. The
  titles created are different from one another when the keys of \<open>original_data\<close> are,
  so openpyxl never renames one. \<^verbatim>\<open>wb.save\<close> comes last and may raise.
\<close>

definition summary_sheet :: "library \<Rightarrow> (string \<times> sheet_stats) list \<Rightarrow> string + worksheet" where
  "summary_sheet lib summary_data =
     (case create_sheet lib ''Summary_Statistics'' of
        Inl e \<Rightarrow> Inl e
      | Inr ws \<Rightarrow>
          (case efold (summary_block lib) summary_data (ws, 1) of
             Inl e \<Rightarrow> Inl e
           | Inr st \<Rightarrow> Inr (fst st)))"

definition create_summary_excel ::
  "library \<Rightarrow> (string \<times> sheet_stats) list \<Rightarrow> all_data \<Rightarrow> string + workbook" where
  "create_summary_excel lib summary_data original_data =
     (case summary_sheet lib summary_data of
        Inl e \<Rightarrow> Inl e
      | Inr ws \<Rightarrow>
          (case efold (\<lambda>item wb. case original_sheet lib item of
                                    Inl e \<Rightarrow> Inl e
                                  | Inr ws' \<Rightarrow> Inr (wb @ [ws']))
                  original_data [ws] of
             Inl e \<Rightarrow> Inl e
           | Inr wb \<Rightarrow>
               (let wb' = map (adjust_widths lib) wb in
                case save_error lib wb' of
                  Some e \<Rightarrow> Inl e
                | None \<Rightarrow> Inr wb')))"

section \<open>process_excel_file and main\<close>

definition process_excel_file :: "library \<Rightarrow> excel_data \<Rightarrow> string \<Rightarrow> string + results" where
  "process_excel_file lib file_data fname =
     (case file_data of
        NotWorkbook e \<Rightarrow> Inl e
      | Workbook sheet_names \<Rightarrow>
          (let st = process_sheets lib sheet_names (init_results fname, []);
               res = fst st; all_data = snd st in
           if summary res \<noteq> []
           then (case create_summary_excel lib (summary res) all_data of
                   Inl e \<Rightarrow> Inl e
                 | Inr wb \<Rightarrow>
                     Inr (res\<lparr> output_file := Some wb,
                               output_filename := Some (''processed_'' @ fname) \<rparr>))
           else Inr res))"

text \<open>
  The request: \<^verbatim>\<open>req.get_json()\<close> raises or gives the body, of which the code reads the
  keys \<^verbatim>\<open>filename\<close> and \<^verbatim>\<open>content\<close>.
\<close>

record req_body =
  body_filename :: "string option"
  body_content :: "string option"

record http_request =
  get_json :: "string + req_body"

datatype json_body = ErrorJson string | ResultJson results

record http_response =
  body :: json_body
  status_code :: nat
  mimetype :: string

definition main :: "library \<Rightarrow> http_request \<Rightarrow> http_response" where
  "main lib req =
     (case get_json req of
        Inl e \<Rightarrow> \<lparr> body = ErrorJson e, status_code = 500, mimetype = ''application/json'' \<rparr>
      | Inr req_body \<Rightarrow>
          (let fname = (case body_filename req_body of None \<Rightarrow> ''input.xlsx'' | Some f \<Rightarrow> f) in
           case body_content req_body of
             None \<Rightarrow> \<lparr> body = ErrorJson ''No file content provided'', status_code = 400,
                       mimetype = ''application/json'' \<rparr>
           | Some file_content \<Rightarrow>
               if file_content = []
               then \<lparr> body = ErrorJson ''No file content provided'', status_code = 400,
                      mimetype = ''application/json'' \<rparr>
               else
                 (case b64decode lib file_content of
                    Inl e \<Rightarrow> \<lparr> body = ErrorJson e, status_code = 500, mimetype = ''application/json'' \<rparr>
                  | Inr excel_data \<Rightarrow>
                      (case process_excel_file lib excel_data fname of
                         Inl e \<Rightarrow> \<lparr> body = ErrorJson e, status_code = 500,
                                    mimetype = ''application/json'' \<rparr>
                       | Inr result \<Rightarrow> \<lparr> body = ResultJson result, status_code = 200,
                                          mimetype = ''application/json'' \<rparr>))))"

section \<open>Notions used in the statements\<close>

text \<open>
  The frames \<^verbatim>\<open>pd.read_excel\<close> builds are rectangular and their column labels are
  pairwise different (pandas renames a repeated header).
\<close>

definition wf_df :: "dataframe \<Rightarrow> bool" where
  "wf_df df \<longleftrightarrow>
     distinct (map fst (df_columns df)) \<and>
     list_all (\<lambda>c. length (series_values (snd c)) = df_len df) (df_columns df)"

text \<open>No column of durations of the frame holds a value.\<close>

definition no_durations :: "dataframe \<Rightarrow> bool" where
  "no_durations df \<longleftrightarrow>
     list_all (\<lambda>c. case snd c of
                       DeltaSeries ds \<Rightarrow> list_all (\<lambda>d. d = None) ds
                     | _ \<Rightarrow> True) (df_columns df)"

text \<open>The frame has a column of a number dtype.\<close>

definition has_number_column :: "dataframe \<Rightarrow> bool" where
  "has_number_column df \<longleftrightarrow> list_ex (\<lambda>c. is_number (snd c)) (df_columns df)"

text \<open>The position, from 0, of the first column of a number dtype.\<close>

definition first_number_column :: "dataframe \<Rightarrow> nat" where
  "first_number_column df = length (takeWhile (\<lambda>c. \<not> is_number (snd c)) (df_columns df))"

text \<open>
  The non-missing values of a numeric column as the specification words them: the entries
  that are numbers, in their order.
\<close>

definition non_missing :: "pyfloat list \<Rightarrow> real list" where
  "non_missing vs = concat (map (\<lambda>v. case v of Float x \<Rightarrow> [x] | NaN \<Rightarrow> []) vs)"

text \<open>
  The statistics over the reals. The sample standard deviation as the specification words
  it: the root of the sum of squared deviations from the mean, divided by \<open>n - 1\<close>.
\<close>

definition arithmetic_mean :: "real list \<Rightarrow> real" where
  "arithmetic_mean xs = (\<Sum>x\<leftarrow>xs. x) / real (length xs)"

definition median_value :: "real list \<Rightarrow> real" where
  "median_value xs =
     (let s = sort xs; n = length s in
      if odd n then s ! (n div 2) else (s ! (n div 2 - 1) + s ! (n div 2)) / 2)"

definition sample_standard_deviation :: "real list \<Rightarrow> real" where
  "sample_standard_deviation xs =
     sqrt ((\<Sum>x\<leftarrow>xs. (x - (\<Sum>y\<leftarrow>xs. y) / real (length xs)) ^ 2) / (real (length xs) - 1))"


text \<open>
  The library rounds nothing on a column: its mean, median and standard deviation are the
  exact ones and each value is a double. This is so when the values and every intermediate
  result are small integers.
\<close>

definition exact_on :: "library \<Rightarrow> real list \<Rightarrow> bool" where
  "exact_on lib xs \<longleftrightarrow>
     series_mean lib xs = Float (arithmetic_mean xs) \<and>
     series_median lib xs = Float (median_value xs) \<and>
     series_std lib 1 xs = Float (sample_standard_deviation xs) \<and>
     list_all (\<lambda>x. py_float lib x = Float x) xs"

text \<open>
  What one sheet adds to \<^verbatim>\<open>sheets_processed\<close>: the annotated string when its body raises,
  nothing when it has no numeric column, its bare name when its statistics were stored.
\<close>

definition outcome_entry :: "library \<Rightarrow> string \<times> sheet_read \<Rightarrow> string list" where
  "outcome_entry lib sh =
     (case sheet_body lib (snd sh) of
        Inl e \<Rightarrow> [error_entry (fst sh) e]
      | Inr None \<Rightarrow> []
      | Inr (Some r) \<Rightarrow> [fst sh])"

text \<open>An entry of the outcome list that bears the annotation of a failed sheet.\<close>

definition annotated :: "string \<Rightarrow> bool" where
  "annotated s \<longleftrightarrow> (\<exists>name msg. s = name @ '' (ERROR: '' @ msg @ '')'')"

text \<open>The cell stored at a place of a sheet, if any.\<close>

definition cell_at :: "worksheet \<Rightarrow> nat \<times> nat \<Rightarrow> cell option" where
  "cell_at ws rc = map_of (ws_cells ws) rc"

text \<open>A later state of a sheet that kept its title, its charts and every cell it had.\<close>

definition ws_extends :: "worksheet \<Rightarrow> worksheet \<Rightarrow> bool" where
  "ws_extends ws ws' \<longleftrightarrow>
     ws_title ws' = ws_title ws \<and> ws_charts ws' = ws_charts ws \<and>
     (\<forall>k c. cell_at ws k = Some c \<longrightarrow> cell_at ws' k = Some c)"

text \<open>A sheet with its charts taken off: what is left is its title, cells and widths.\<close>

definition without_charts :: "worksheet \<Rightarrow> worksheet" where
  "without_charts ws = ws\<lparr> ws_charts := [] \<rparr>"

subsection \<open>Example inputs\<close>

text \<open>
  A run of the libraries in which the content of the request decodes to \<open>d\<close>, no
  statistic is rounded, every sheet title is accepted, a string holding a vertical tab is
  refused as a cell value (openpyxl's \<^verbatim>\<open>IllegalCharacterError\<close>), and neither a chart nor
  saving fails.
\<close>

definition exact_std :: "nat \<Rightarrow> real list \<Rightarrow> pyfloat" where
  "exact_std ddof xs =
     (if length xs \<le> ddof then NaN
      else Float (sqrt ((\<Sum>x\<leftarrow>xs. (x - arithmetic_mean xs) ^ 2) / real (length xs - ddof))))"

definition lib_with_std :: "excel_data \<Rightarrow> (nat \<Rightarrow> real list \<Rightarrow> pyfloat) \<Rightarrow> library" where
  "lib_with_std d std =
     \<lparr> b64decode = (\<lambda>s. Inr d),
       series_mean = (\<lambda>xs. if xs = [] then NaN else Float (arithmetic_mean xs)),
       series_median = (\<lambda>xs. if xs = [] then NaN else Float (median_value xs)),
       series_std = std,
       py_float = Float,
       float_error = ''float() argument must be a string or a real number, not Timedelta'',
       title_error = (\<lambda>t. None),
       value_error = (\<lambda>v. case v of
                            Text s \<Rightarrow> if CHR 0x0B \<in> set s then Some ''IllegalCharacterError'' else None
                          | _ \<Rightarrow> None),
       chart_error = (\<lambda>n. None),
       save_error = (\<lambda>wb. None),
       str_len = (\<lambda>v. case v of Text s \<Rightarrow> Some (length s) | _ \<Rightarrow> None) \<rparr>"

definition example_lib :: "excel_data \<Rightarrow> library" where
  "example_lib d = lib_with_std d exact_std"

definition sales_df :: dataframe where
  "sales_df = \<lparr> df_columns = [(''Revenue'', NumSeries [Float 10, Float 20, Float 30])] \<rparr>"

definition sales_stats :: col_stats where
  "sales_stats =
     \<lparr> stat_mean = Float 20, stat_median = Float 20, stat_std = Float 10,
       stat_min = Float 10, stat_max = Float 30, stat_count = 3 \<rparr>"

text \<open>A sheet with a column of three values and a column of which one value is present.\<close>

definition bonus_df :: dataframe where
  "bonus_df =
     \<lparr> df_columns = [(''Revenue'', NumSeries [Float 10, Float 20, Float 30]),
                     (''Bonus'', NumSeries [NaN, Float 5, NaN])] \<rparr>"

definition notes_df :: dataframe where
  "notes_df = \<lparr> df_columns = [(''Notes'', ObjSeries [Text ''paid'', Text ''open''])] \<rparr>"

definition blank_df :: dataframe where
  "blank_df =
     \<lparr> df_columns = [(''Amount'', NumSeries [NaN, NaN]),
                     (''Label'', ObjSeries [Text ''a'', Text ''b''])] \<rparr>"

definition tab_df :: dataframe where
  "tab_df =
     \<lparr> df_columns = [(''Revenue'', NumSeries [Float 1]),
                     (''Note'', ObjSeries [Text [CHR 0x0B]])] \<rparr>"


text \<open>A sheet of two numeric columns behind a column of text, with more than 19 rows.\<close>

definition long_df :: dataframe where
  "long_df =
     \<lparr> df_columns = [(''Item'', ObjSeries (replicate 25 (Text ''x''))),
                     (''Qty'', NumSeries (replicate 25 (Float 1))),
                     (''Price'', NumSeries (replicate 25 (Float 2)))] \<rparr>"

section \<open>Lemmas\<close>

lemma map_of_dict_set: "map_of (dict_set k v d) = (map_of d)(k \<mapsto> v)"
  by (induction d) (auto simp: fun_eq_iff)

lemma keys_dict_set: "fst ` set (dict_set k v d) = insert k (fst ` set d)"
  by (induction d) auto

lemma map_fst_dict_set:
  "map fst (dict_set k v d) = (if k \<in> fst ` set d then map fst d else map fst d @ [k])"
  by (induction d) auto

lemma process_sheets_append:
  "process_sheets lib (xs @ ys) st = process_sheets lib ys (process_sheets lib xs st)"
  by (induction xs arbitrary: st) auto


lemma stats_loop_entry:
  "stats_loop lib df cols acc = Inr st \<Longrightarrow> map_of st col = Some cs \<Longrightarrow>
   map_of acc col = Some cs \<or>
   (col \<in> set cols \<and> (\<exists>vs. df_getitem df col = Inr (NumSeries vs) \<and> dropna vs \<noteq> [] \<and>
      cs = column_stats lib (dropna vs)))"
proof (induction cols arbitrary: acc)
  case Nil
  then show ?case by simp
next
  case (Cons c cols)
  from Cons.prems(1) consider
      (num) vs where "df_getitem df c = Inr (NumSeries vs)"
    | (delta) ds where "df_getitem df c = Inr (DeltaSeries ds)" "dropna_delta ds = []"
    by (auto simp: Let_def split: sum.splits series.splits if_splits)
  then show ?case
  proof cases
    case delta
    with Cons.prems have "stats_loop lib df cols acc = Inr st" by simp
    from Cons.IH[OF this Cons.prems(2)] show ?thesis by auto
  next
    case (num vs)
    note g = num
    show ?thesis
    proof (cases "dropna vs = []")
    case True
    with Cons.prems g have "stats_loop lib df cols acc = Inr st" by simp
    from Cons.IH[OF this Cons.prems(2)] show ?thesis by auto
  next
    case False
    with Cons.prems g have "stats_loop lib df cols (dict_set c (column_stats lib (dropna vs)) acc) = Inr st"
      by simp
    from Cons.IH[OF this Cons.prems(2)] g False show ?thesis
      by (auto simp: map_of_dict_set split: if_splits)
  qed
  qed
qed

lemma sheet_body_Some:
  "sheet_body lib rd = Inr (Some (s, df)) \<longleftrightarrow>
   rd = Inr df \<and> numeric_cols df \<noteq> [] \<and> stats_loop lib df (numeric_cols df) [] = Inr s"
  by (auto simp: sheet_body_def split: sum.splits if_splits)

lemma process_sheet_summary:
  "map_of (summary (fst (process_sheet lib sh st))) n = Some s \<Longrightarrow>
   map_of (summary (fst st)) n = Some s \<or> (n = fst sh \<and> (\<exists>df. sheet_body lib (snd sh) = Inr (Some (s, df))))"
  by (auto simp: process_sheet_def map_of_dict_set split: sum.splits option.splits if_splits)

lemma process_sheets_summary:
  "map_of (summary (fst (process_sheets lib shs st))) n = Some s \<Longrightarrow>
   map_of (summary (fst st)) n = Some s \<or>
   (\<exists>rd df. (n, rd) \<in> set shs \<and> sheet_body lib rd = Inr (Some (s, df)))"
proof (induction shs arbitrary: st)
  case Nil
  then show ?case by simp
next
  case (Cons sh shs)
  from Cons.IH[of "process_sheet lib sh st"] Cons.prems
  consider "map_of (summary (fst (process_sheet lib sh st))) n = Some s"
    | "\<exists>rd df. (n, rd) \<in> set shs \<and> sheet_body lib rd = Inr (Some (s, df))"
    by auto
  then show ?case
  proof cases
    case 1
    from process_sheet_summary[OF this] show ?thesis
      by (cases sh) auto
  next
    case 2
    then show ?thesis by auto
  qed
qed

lemma process_excel_file_Inr:
  "process_excel_file lib (Workbook shs) fname = Inr res \<Longrightarrow>
   summary res = summary (fst (process_sheets lib shs (init_results fname, []))) \<and>
   sheets_processed res = sheets_processed (fst (process_sheets lib shs (init_results fname, [])))"
  by (auto simp: process_excel_file_def Let_def split: if_splits sum.splits)


lemma process_sheet_sheets_processed:
  "sheets_processed (fst (process_sheet lib sh st)) = sheets_processed (fst st) @ outcome_entry lib sh"
  by (auto simp: process_sheet_def outcome_entry_def split: sum.splits option.splits)

lemma process_sheets_sheets_processed:
  "sheets_processed (fst (process_sheets lib shs st)) =
   sheets_processed (fst st) @ concat (map (outcome_entry lib) shs)"
  by (induction shs arbitrary: st) (auto simp: process_sheet_sheets_processed)

lemma process_sheet_keys:
  "fst ` set (summary (fst (process_sheet lib sh st))) =
   fst ` set (summary (fst st)) \<union> (if \<exists>r. sheet_body lib (snd sh) = Inr (Some r) then {fst sh} else {})"
  by (auto simp: process_sheet_def keys_dict_set split: sum.splits option.splits)

lemma process_sheets_keys:
  "fst ` set (summary (fst (process_sheets lib shs st))) =
   fst ` set (summary (fst st)) \<union> {n. \<exists>rd r. (n, rd) \<in> set shs \<and> sheet_body lib rd = Inr (Some r)}"
proof (induction shs arbitrary: st)
  case Nil
  then show ?case by simp
next
  case (Cons sh shs)
  show ?case
    unfolding process_sheets.simps Cons.IH process_sheet_keys
    by (cases sh) (auto split: if_splits)
qed

lemma map_fst_dict_set_cong:
  "map fst d = map fst d' \<Longrightarrow> map fst (dict_set k v d) = map fst (dict_set k v' d')"
proof (induction d arbitrary: d')
  case Nil
  then show ?case by simp
next
  case (Cons p ps)
  then obtain p' ps' where d': "d' = p' # ps'" by (cases d') auto
  with Cons.prems have "fst p = fst p'" "map fst ps = map fst ps'" by simp_all
  with Cons.IH[of ps'] d' show ?case by simp
qed

lemma process_sheet_all_data_keys:
  "map fst (snd st) = map fst (summary (fst st)) \<Longrightarrow>
   map fst (snd (process_sheet lib sh st)) = map fst (summary (fst (process_sheet lib sh st)))"
  by (cases "sheet_body lib (snd sh)")
     (auto simp: process_sheet_def intro: map_fst_dict_set_cong split: option.splits)

lemma process_sheets_all_data_keys:
  "map fst (snd st) = map fst (summary (fst st)) \<Longrightarrow>
   map fst (snd (process_sheets lib shs st)) = map fst (summary (fst (process_sheets lib shs st)))"
  by (induction shs arbitrary: st) (auto simp: process_sheet_all_data_keys)

lemma process_sheet_other_fields:
  "filename (fst (process_sheet lib sh st)) = filename (fst st) \<and>
   charts_created (fst (process_sheet lib sh st)) = charts_created (fst st) \<and>
   output_file (fst (process_sheet lib sh st)) = output_file (fst st) \<and>
   output_filename (fst (process_sheet lib sh st)) = output_filename (fst st)"
  by (auto simp: process_sheet_def split: sum.splits option.splits)

lemma process_sheets_other_fields:
  "filename (fst (process_sheets lib shs st)) = filename (fst st) \<and>
   charts_created (fst (process_sheets lib shs st)) = charts_created (fst st) \<and>
   output_file (fst (process_sheets lib shs st)) = output_file (fst st) \<and>
   output_filename (fst (process_sheets lib shs st)) = output_filename (fst st)"
  by (induction shs arbitrary: st) (auto simp: process_sheet_other_fields)

lemma process_sheet_indep:
  "summary (fst st) = summary (fst st') \<Longrightarrow> snd st = snd st' \<Longrightarrow>
   summary (fst (process_sheet lib sh st)) = summary (fst (process_sheet lib sh st')) \<and>
   snd (process_sheet lib sh st) = snd (process_sheet lib sh st')"
  by (auto simp: process_sheet_def split: sum.splits option.splits)

lemma process_sheets_indep:
  "summary (fst st) = summary (fst st') \<Longrightarrow> snd st = snd st' \<Longrightarrow>
   summary (fst (process_sheets lib shs st)) = summary (fst (process_sheets lib shs st')) \<and>
   snd (process_sheets lib shs st) = snd (process_sheets lib shs st')"
proof (induction shs arbitrary: st st')
  case Nil
  then show ?case by simp
next
  case (Cons sh shs)
  have "summary (fst (process_sheet lib sh st)) = summary (fst (process_sheet lib sh st'))"
    and "snd (process_sheet lib sh st) = snd (process_sheet lib sh st')"
    using process_sheet_indep[OF Cons.prems, of lib sh] by blast+
  from Cons.IH[OF this] show ?case by simp
qed


lemma put_cell_simps:
  "cell_at (put_cell ws k c) = (cell_at ws)(k \<mapsto> c)"
  "ws_title (put_cell ws k c) = ws_title ws"
  "ws_charts (put_cell ws k c) = ws_charts ws"
  "ws_widths (put_cell ws k c) = ws_widths ws"
  by (simp_all add: put_cell_def cell_at_def map_of_dict_set fun_eq_iff)

lemma get_cell_cell_at:
  "get_cell ws k = (case cell_at ws k of None \<Rightarrow> blank_cell | Some c \<Rightarrow> c)"
  by (simp add: get_cell_def cell_at_def)

lemma write_cell_Inr:
  "write_cell lib ws r c v = Inr ws' \<Longrightarrow>
   ws' = put_cell ws (r, c) ((get_cell ws (r, c))\<lparr> cell_value := v \<rparr>)"
  by (auto simp: write_cell_def split: option.splits)

lemma header_cell_Inr:
  "header_cell lib ws r c h = Inr ws' \<Longrightarrow>
   ws_title ws' = ws_title ws \<and> ws_charts ws' = ws_charts ws \<and>
   cell_at ws' = (cell_at ws)((r, c) \<mapsto>
      (get_cell ws (r, c))\<lparr> cell_value := Text h, cell_fill := Some header_fill,
                              cell_font := Some header_font \<rparr>)"
  by (auto simp: header_cell_def put_cell_simps get_cell_cell_at fun_eq_iff
           dest!: write_cell_Inr split: sum.splits)

lemma nth_Cons_shift: "Suc n \<le> b \<Longrightarrow> (x # xs) ! (b - n) = xs ! (b - Suc n)"
  by (simp add: nth_Cons' Suc_diff_le)

lemma header_loop:
  "efold (\<lambda>ch ws. header_cell lib ws r (fst ch) (snd ch)) (enumerate n hs) ws = Inr ws' \<Longrightarrow>
   ws_title ws' = ws_title ws \<and> ws_charts ws' = ws_charts ws \<and>
   (\<forall>a b. cell_at ws' (a, b) =
      (if a = r \<and> n \<le> b \<and> b < n + length hs
       then Some ((get_cell ws (a, b))\<lparr> cell_value := Text (hs ! (b - n)),
                                          cell_fill := Some header_fill,
                                          cell_font := Some header_font \<rparr>)
       else cell_at ws (a, b)))"
proof (induction hs arbitrary: n ws)
  case Nil
  then show ?case by auto
next
  case (Cons h hs)
  from Cons.prems obtain ws1 where
    1: "header_cell lib ws r n h = Inr ws1" and
    2: "efold (\<lambda>ch ws. header_cell lib ws r (fst ch) (snd ch)) (enumerate (Suc n) hs) ws1 = Inr ws'"
    by (auto split: sum.splits)
  note h1 = header_cell_Inr[OF 1]
  note h2 = Cons.IH[OF 2]
  show ?case
  proof (intro conjI allI)
    show "ws_title ws' = ws_title ws" using h1 h2 by simp
    show "ws_charts ws' = ws_charts ws" using h1 h2 by simp
    fix a b :: nat
    from h2 have c2: "cell_at ws' (a, b) =
      (if a = r \<and> Suc n \<le> b \<and> b < Suc n + length hs
       then Some ((get_cell ws1 (a, b))\<lparr> cell_value := Text (hs ! (b - Suc n)),
                                          cell_fill := Some header_fill,
                                          cell_font := Some header_font \<rparr>)
       else cell_at ws1 (a, b))" by blast
    show "cell_at ws' (a, b) =
      (if a = r \<and> n \<le> b \<and> b < n + length (h # hs)
       then Some ((get_cell ws (a, b))\<lparr> cell_value := Text ((h # hs) ! (b - n)),
                                          cell_fill := Some header_fill,
                                          cell_font := Some header_font \<rparr>)
       else cell_at ws (a, b))"
    proof (cases "a = r \<and> b = n")
      case True
      then have "\<not> (a = r \<and> Suc n \<le> b \<and> b < Suc n + length hs)" by simp
      then have "cell_at ws' (a, b) = cell_at ws1 (a, b)" unfolding c2 by (rule if_not_P)
      with True h1 show ?thesis by simp
    next
      case False
      have c1: "cell_at ws1 (a, b) = cell_at ws (a, b)" using h1 False by auto
      then have g: "get_cell ws1 (a, b) = get_cell ws (a, b)" by (simp add: get_cell_cell_at)
      show ?thesis
      proof (cases "a = r \<and> Suc n \<le> b \<and> b < Suc n + length hs")
        case True
        then have p1: "a = r \<and> n \<le> b \<and> b < n + length (h # hs)" by simp
        from True have sh: "(h # hs) ! (b - n) = hs ! (b - Suc n)" by (simp add: nth_Cons_shift)
        show ?thesis unfolding if_P[OF p1] c2[unfolded if_P[OF True]] g sh ..
      next
        case F2: False
        with False have n1: "\<not> (a = r \<and> n \<le> b \<and> b < n + length (h # hs))" by auto
        show ?thesis unfolding if_not_P[OF n1] c2[unfolded if_not_P[OF F2]] c1 ..
      qed
    qed
  qed
qed

lemma row_loop:
  "efold (\<lambda>cv ws. write_cell lib ws r (fst cv) (snd cv)) (enumerate n vs) ws = Inr ws' \<Longrightarrow>
   ws_title ws' = ws_title ws \<and> ws_charts ws' = ws_charts ws \<and>
   (\<forall>a b. cell_at ws' (a, b) =
      (if a = r \<and> n \<le> b \<and> b < n + length vs
       then Some ((get_cell ws (a, b))\<lparr> cell_value := vs ! (b - n) \<rparr>)
       else cell_at ws (a, b)))"
proof (induction vs arbitrary: n ws)
  case Nil
  then show ?case by auto
next
  case (Cons v vs)
  from Cons.prems obtain ws1 where
    1: "write_cell lib ws r n v = Inr ws1" and
    2: "efold (\<lambda>cv ws. write_cell lib ws r (fst cv) (snd cv)) (enumerate (Suc n) vs) ws1 = Inr ws'"
    by (auto split: sum.splits)
  have h1: "ws_title ws1 = ws_title ws" "ws_charts ws1 = ws_charts ws"
    "cell_at ws1 = (cell_at ws)((r, n) \<mapsto> (get_cell ws (r, n))\<lparr> cell_value := v \<rparr>)"
    using write_cell_Inr[OF 1] by (simp_all add: put_cell_simps)
  note h2 = Cons.IH[OF 2]
  show ?case
  proof (intro conjI allI)
    show "ws_title ws' = ws_title ws" using h1 h2 by simp
    show "ws_charts ws' = ws_charts ws" using h1 h2 by simp
    fix a b :: nat
    from h2 have c2: "cell_at ws' (a, b) =
      (if a = r \<and> Suc n \<le> b \<and> b < Suc n + length vs
       then Some ((get_cell ws1 (a, b))\<lparr> cell_value := vs ! (b - Suc n) \<rparr>)
       else cell_at ws1 (a, b))" by blast
    show "cell_at ws' (a, b) =
      (if a = r \<and> n \<le> b \<and> b < n + length (v # vs)
       then Some ((get_cell ws (a, b))\<lparr> cell_value := (v # vs) ! (b - n) \<rparr>)
       else cell_at ws (a, b))"
    proof (cases "a = r \<and> b = n")
      case True
      then have "\<not> (a = r \<and> Suc n \<le> b \<and> b < Suc n + length vs)" by simp
      then have "cell_at ws' (a, b) = cell_at ws1 (a, b)" unfolding c2 by (rule if_not_P)
      with True h1 show ?thesis by simp
    next
      case False
      have c1: "cell_at ws1 (a, b) = cell_at ws (a, b)" using h1 False by auto
      then have g: "get_cell ws1 (a, b) = get_cell ws (a, b)" by (simp add: get_cell_cell_at)
      show ?thesis
      proof (cases "a = r \<and> Suc n \<le> b \<and> b < Suc n + length vs")
        case True
        then have p1: "a = r \<and> n \<le> b \<and> b < n + length (v # vs)" by simp
        from True have sh: "(v # vs) ! (b - n) = vs ! (b - Suc n)" by (simp add: nth_Cons_shift)
        show ?thesis unfolding if_P[OF p1] c2[unfolded if_P[OF True]] g sh ..
      next
        case F2: False
        with False have n1: "\<not> (a = r \<and> n \<le> b \<and> b < n + length (v # vs))" by auto
        show ?thesis unfolding if_not_P[OF n1] c2[unfolded if_not_P[OF F2]] c1 ..
      qed
    qed
  qed
qed

lemma rows_loop:
  "efold (\<lambda>rr ws. efold (\<lambda>cv ws. write_cell lib ws (fst rr) (fst cv) (snd cv))
                     (enumerate 1 (snd rr)) ws)
     (enumerate m rows) ws = Inr ws' \<Longrightarrow>
   ws_title ws' = ws_title ws \<and> ws_charts ws' = ws_charts ws \<and>
   (\<forall>a b. cell_at ws' (a, b) =
      (if m \<le> a \<and> a < m + length rows \<and> 1 \<le> b \<and> b < 1 + length (rows ! (a - m))
       then Some ((get_cell ws (a, b))\<lparr> cell_value := rows ! (a - m) ! (b - 1) \<rparr>)
       else cell_at ws (a, b)))"
proof (induction rows arbitrary: m ws)
  case Nil
  then show ?case by auto
next
  case (Cons row rows)
  from Cons.prems obtain ws1 where
    1: "efold (\<lambda>cv ws. write_cell lib ws m (fst cv) (snd cv)) (enumerate 1 row) ws = Inr ws1" and
    2: "efold (\<lambda>rr ws. efold (\<lambda>cv ws. write_cell lib ws (fst rr) (fst cv) (snd cv))
                     (enumerate 1 (snd rr)) ws)
          (enumerate (Suc m) rows) ws1 = Inr ws'"
    by (auto split: sum.splits)
  note h1 = row_loop[OF 1]
  note h2 = Cons.IH[OF 2]
  show ?case
  proof (intro conjI allI)
    show "ws_title ws' = ws_title ws" using h1 h2 by simp
    show "ws_charts ws' = ws_charts ws" using h1 h2 by simp
    fix a b :: nat
    from h2 have c2: "cell_at ws' (a, b) =
      (if Suc m \<le> a \<and> a < Suc m + length rows \<and> 1 \<le> b \<and> b < 1 + length (rows ! (a - Suc m))
       then Some ((get_cell ws1 (a, b))\<lparr> cell_value := rows ! (a - Suc m) ! (b - 1) \<rparr>)
       else cell_at ws1 (a, b))" by blast
    from h1 have c1: "cell_at ws1 (a, b) =
      (if a = m \<and> 1 \<le> b \<and> b < 1 + length row
       then Some ((get_cell ws (a, b))\<lparr> cell_value := row ! (b - 1) \<rparr>)
       else cell_at ws (a, b))" by blast
    show "cell_at ws' (a, b) =
      (if m \<le> a \<and> a < m + length (row # rows) \<and> 1 \<le> b \<and>
          b < 1 + length ((row # rows) ! (a - m))
       then Some ((get_cell ws (a, b))\<lparr> cell_value := (row # rows) ! (a - m) ! (b - 1) \<rparr>)
       else cell_at ws (a, b))"
    proof (cases "a = m")
      case True
      then have "\<not> (Suc m \<le> a \<and> a < Suc m + length rows \<and> 1 \<le> b \<and>
                  b < 1 + length (rows ! (a - Suc m)))" by simp
      then have "cell_at ws' (a, b) = cell_at ws1 (a, b)" unfolding c2 by (rule if_not_P)
      with True show ?thesis unfolding c1 by simp
    next
      case False
      then have c1': "cell_at ws1 (a, b) = cell_at ws (a, b)" unfolding c1 by simp
      then have g: "get_cell ws1 (a, b) = get_cell ws (a, b)" by (simp add: get_cell_cell_at)
      show ?thesis
      proof (cases "Suc m \<le> a")
        case True
        then have sh: "(row # rows) ! (a - m) = rows ! (a - Suc m)" by (simp add: nth_Cons_shift)
        show ?thesis
        proof (cases "a < Suc m + length rows \<and> 1 \<le> b \<and> b < 1 + length (rows ! (a - Suc m))")
          case T2: True
          have q2: "Suc m \<le> a \<and> a < Suc m + length rows \<and> 1 \<le> b \<and>
                    b < 1 + length (rows ! (a - Suc m))"
            using True T2 by simp
          have q1: "m \<le> a \<and> a < m + length (row # rows) \<and> 1 \<le> b \<and>
                    b < 1 + length (rows ! (a - Suc m))"
            using True T2 by simp
          show ?thesis unfolding if_P[OF q1] c2[unfolded if_P[OF q2]] g sh ..
        next
          case F3: False
          have q2: "\<not> (Suc m \<le> a \<and> a < Suc m + length rows \<and> 1 \<le> b \<and>
                    b < 1 + length (rows ! (a - Suc m)))"
            using F3 by simp
          have q1: "\<not> (m \<le> a \<and> a < m + length (row # rows) \<and> 1 \<le> b \<and>
                    b < 1 + length (rows ! (a - Suc m)))"
            using True F3 by auto
          show ?thesis unfolding sh if_not_P[OF q1] c2[unfolded if_not_P[OF q2]] c1' ..
        qed
      next
        case F2: False
        with False have n1: "\<not> m \<le> a" by simp
        from F2 have "cell_at ws' (a, b) = cell_at ws1 (a, b)" unfolding c2 by simp
        with n1 show ?thesis unfolding c1' by simp
      qed
    qed
  qed
qed

lemma add_chart_simps:
  "ws_title (add_chart lib n df ws) = ws_title ws"
  "cell_at (add_chart lib n df ws) = cell_at ws"
  "ws_cells (add_chart lib n df ws) = ws_cells ws"
  "ws_widths (add_chart lib n df ws) = ws_widths ws"
  by (simp_all add: add_chart_def cell_at_def Let_def fun_eq_iff split: sum.splits)

lemma efold_originals:
  "efold (\<lambda>item wb. case original_sheet lib item of Inl e \<Rightarrow> Inl e | Inr ws' \<Rightarrow> Inr (wb @ [ws']))
     od wb0 = Inr wb \<Longrightarrow>
   \<exists>wss. wb = wb0 @ wss \<and> list_all2 (\<lambda>item ws. original_sheet lib item = Inr ws) od wss"
proof (induction od arbitrary: wb0)
  case Nil
  then show ?case by simp
next
  case (Cons item od)
  from Cons.prems obtain ws1 where
    1: "original_sheet lib item = Inr ws1" and
    2: "efold (\<lambda>item wb. case original_sheet lib item of Inl e \<Rightarrow> Inl e | Inr ws' \<Rightarrow> Inr (wb @ [ws']))
          od (wb0 @ [ws1]) = Inr wb"
    by (auto split: sum.splits)
  from Cons.IH[OF 2] obtain wss where
    "wb = (wb0 @ [ws1]) @ wss" "list_all2 (\<lambda>item ws. original_sheet lib item = Inr ws) od wss"
    by blast
  with 1 have "wb = wb0 @ (ws1 # wss) \<and>
      list_all2 (\<lambda>item ws. original_sheet lib item = Inr ws) (item # od) (ws1 # wss)"
    by simp
  then show ?case by blast
qed

lemma create_summary_excel_Inr:
  assumes "create_summary_excel lib sd od = Inr wb"
  shows "\<exists>ws0 wss. summary_sheet lib sd = Inr ws0 \<and>
           list_all2 (\<lambda>item ws. original_sheet lib item = Inr ws) od wss \<and>
           wb = map (adjust_widths lib) (ws0 # wss)"
proof -
  from assms obtain ws0 wb1 where
    0: "summary_sheet lib sd = Inr ws0" and
    1: "efold (\<lambda>item wb. case original_sheet lib item of Inl e \<Rightarrow> Inl e | Inr ws' \<Rightarrow> Inr (wb @ [ws']))
          od [ws0] = Inr wb1" and
    2: "wb = map (adjust_widths lib) wb1"
    by (auto simp: create_summary_excel_def Let_def split: sum.splits option.splits)
  from efold_originals[OF 1] 0 2 show ?thesis by auto
qed

lemma ws_extends_refl: "ws_extends ws ws"
  by (simp add: ws_extends_def)

lemma ws_extends_trans: "ws_extends a b \<Longrightarrow> ws_extends b c \<Longrightarrow> ws_extends a c"
  by (simp add: ws_extends_def)

lemma fold_ws_extends:
  "(\<And>x s. ws_extends s (f x s)) \<Longrightarrow> ws_extends ws (fold f xs ws)"
proof (induction xs arbitrary: ws)
  case Nil
  then show ?case by (simp add: ws_extends_refl)
next
  case (Cons x xs)
  have "ws_extends ws (f x ws)" by (rule Cons.prems)
  moreover have "ws_extends (f x ws) (fold f xs (f x ws))" by (rule Cons.IH) (rule Cons.prems)
  ultimately show ?case using ws_extends_trans by simp
qed

lemma touch_cell_extends: "ws_extends ws (touch_cell rc ws)"
  by (auto simp: touch_cell_def ws_extends_def put_cell_def cell_at_def map_of_dict_set
           split: option.splits)

lemma adjust_column_extends: "ws_extends ws (adjust_column lib rows c ws)"
proof -
  have "ws_extends ws (fold (\<lambda>r. touch_cell (r, c)) [1..<Suc rows] ws)"
    by (rule fold_ws_extends) (rule touch_cell_extends)
  then show ?thesis by (simp add: adjust_column_def Let_def ws_extends_def cell_at_def)
qed

lemma adjust_widths_extends: "ws_extends ws (adjust_widths lib ws)"
  unfolding adjust_widths_def by (rule fold_ws_extends) (rule adjust_column_extends)

lemma create_sheet_Inr:
  "create_sheet lib t = Inr ws \<Longrightarrow>
   ws = \<lparr> ws_title = t, ws_cells = [], ws_charts = [], ws_widths = [] \<rparr>"
  by (auto simp: create_sheet_def split: option.splits)

lemma original_sheet_Inr:
  assumes "original_sheet lib (n, df) = Inr ws"
  shows "ws_title ws = ''Original_'' @ n"
    and "ws_charts ws = ws_charts (add_chart lib n df
            \<lparr> ws_title = ''Original_'' @ n, ws_cells = [], ws_charts = [], ws_widths = [] \<rparr>)"
    and "cell_at ws (a, b) =
      (if 2 \<le> a \<and> a < 2 + length (df_values df) \<and> 1 \<le> b \<and>
          b < 1 + length (df_values df ! (a - 2))
       then Some (blank_cell\<lparr> cell_value := df_values df ! (a - 2) ! (b - 1) \<rparr>)
       else if a = 1 \<and> 1 \<le> b \<and> b < 1 + length (df_columns df)
       then Some \<lparr> cell_value = Text (fst (df_columns df ! (b - 1))),
                   cell_fill = Some header_fill, cell_font = Some header_font \<rparr>
       else None)"
proof -
  let ?ws0 = "\<lparr> ws_title = ''Original_'' @ n, ws_cells = [], ws_charts = [], ws_widths = [] \<rparr>"
  from assms obtain ws0 ws1 ws2 where
    0: "create_sheet lib (''Original_'' @ n) = Inr ws0" and
    1: "efold (\<lambda>ch ws. header_cell lib ws 1 (fst ch) (snd ch))
          (enumerate 1 (map fst (df_columns df))) ws0 = Inr ws1" and
    2: "efold (\<lambda>rr ws. efold (\<lambda>cv ws. write_cell lib ws (fst rr) (fst cv) (snd cv))
                          (enumerate 1 (snd rr)) ws)
          (enumerate 2 (df_values df)) ws1 = Inr ws2" and
    3: "ws = add_chart lib n df ws2"
    by (auto simp: original_sheet_def Let_def split: sum.splits)
  have w0: "ws0 = ?ws0" using create_sheet_Inr[OF 0] .
  note h1 = header_loop[OF 1]
  note h2 = rows_loop[OF 2]
  have c0: "cell_at ws0 k = None" for k by (simp add: w0 cell_at_def)
  have g0: "get_cell ws0 k = blank_cell" for k by (simp add: get_cell_cell_at c0)
  have t2: "ws_title ws2 = ''Original_'' @ n" "ws_charts ws2 = []"
    using h1 h2 w0 by simp_all
  show "ws_title ws = ''Original_'' @ n" using 3 t2 by (simp add: add_chart_simps)
  show "ws_charts ws = ws_charts (add_chart lib n df ?ws0)"
    using 3 t2 by (simp add: add_chart_def Let_def split: sum.splits)
  have c1: "cell_at ws1 (a, b) =
      (if a = 1 \<and> 1 \<le> b \<and> b < 1 + length (df_columns df)
       then Some \<lparr> cell_value = Text (fst (df_columns df ! (b - 1))),
                   cell_fill = Some header_fill, cell_font = Some header_font \<rparr>
       else None)"
    using h1 by (auto simp: g0 c0 blank_cell_def)
  have c2: "cell_at ws2 (a, b) =
      (if 2 \<le> a \<and> a < 2 + length (df_values df) \<and> 1 \<le> b \<and>
          b < 1 + length (df_values df ! (a - 2))
       then Some ((get_cell ws1 (a, b))\<lparr> cell_value := df_values df ! (a - 2) ! (b - 1) \<rparr>)
       else cell_at ws1 (a, b))"
    using h2 by blast
  have g1: "get_cell ws1 (a, b) = blank_cell" if "2 \<le> a"
    using that c1 by (simp add: get_cell_cell_at)
  show "cell_at ws (a, b) =
      (if 2 \<le> a \<and> a < 2 + length (df_values df) \<and> 1 \<le> b \<and>
          b < 1 + length (df_values df ! (a - 2))
       then Some (blank_cell\<lparr> cell_value := df_values df ! (a - 2) ! (b - 1) \<rparr>)
       else if a = 1 \<and> 1 \<le> b \<and> b < 1 + length (df_columns df)
       then Some \<lparr> cell_value = Text (fst (df_columns df ! (b - 1))),
                   cell_fill = Some header_fill, cell_font = Some header_font \<rparr>
       else None)"
    unfolding 3 add_chart_simps c2 c1 using g1 by simp
qed

lemma hd_numeric_mem:
  "filter (\<lambda>c. is_number (snd c)) cols \<noteq> [] \<Longrightarrow>
   hd (map fst (filter (\<lambda>c. is_number (snd c)) cols)) \<in> fst ` set cols"
proof -
  assume ne: "filter (\<lambda>c. is_number (snd c)) cols \<noteq> []"
  then have "hd (filter (\<lambda>c. is_number (snd c)) cols) \<in> set (filter (\<lambda>c. is_number (snd c)) cols)"
    by (rule hd_in_set)
  then have "hd (filter (\<lambda>c. is_number (snd c)) cols) \<in> set cols" by simp
  then have "fst (hd (filter (\<lambda>c. is_number (snd c)) cols)) \<in> fst ` set cols" by (rule imageI)
  with ne show ?thesis by (simp add: hd_map)
qed

lemma get_loc_first:
  "distinct (map fst cols) \<Longrightarrow> filter (\<lambda>c. is_number (snd c)) cols \<noteq> [] \<Longrightarrow>
   \<exists>loc. get_loc cols (hd (map fst (filter (\<lambda>c. is_number (snd c)) cols))) = Some loc \<and>
         loc < length cols \<and> is_number (snd (cols ! loc)) \<and>
         (\<forall>k<loc. \<not> is_number (snd (cols ! k)))"
proof (induction cols)
  case Nil
  then show ?case by simp
next
  case (Cons c cols)
  show ?case
  proof (cases "is_number (snd c)")
    case True
    then have "get_loc (c # cols) (hd (map fst (filter (\<lambda>c. is_number (snd c)) (c # cols)))) = Some 0"
      by simp
    with True show ?thesis by (intro exI[of _ 0]) simp
  next
    case False
    with Cons.prems have ne: "filter (\<lambda>c. is_number (snd c)) cols \<noteq> []" by simp
    from Cons.prems have d: "distinct (map fst cols)" by simp
    let ?h = "hd (map fst (filter (\<lambda>c. is_number (snd c)) cols))"
    from Cons.IH[OF d ne] obtain loc where
      l: "get_loc cols ?h = Some loc"
         "loc < length cols" "is_number (snd (cols ! loc))" "\<forall>k<loc. \<not> is_number (snd (cols ! k))"
      by blast
    have hm: "?h \<in> fst ` set cols" using ne by (rule hd_numeric_mem)
    from Cons.prems(1) have nm: "fst c \<notin> fst ` set cols" by simp
    have nf: "fst c \<noteq> ?h"
    proof
      assume "fst c = ?h"
      with hm have "fst c \<in> fst ` set cols" by (simp only:)
      with nm show False ..
    qed
    have f: "filter (\<lambda>c. is_number (snd c)) (c # cols) = filter (\<lambda>c. is_number (snd c)) cols"
      using False by simp
    have 1: "get_loc (c # cols) (hd (map fst (filter (\<lambda>c. is_number (snd c)) (c # cols)))) = Some (Suc loc)"
      unfolding f using nf l(1) by simp
    have 2: "\<forall>k<Suc loc. \<not> is_number (snd ((c # cols) ! k))"
    proof (intro allI impI)
      fix k assume "k < Suc loc"
      then show "\<not> is_number (snd ((c # cols) ! k))"
        using False l(4) by (cases k) simp_all
    qed
    have 3: "Suc loc < length (c # cols)" "is_number (snd ((c # cols) ! Suc loc))"
      using l(2,3) by simp_all
    from 1 2 3 show ?thesis by blast
  qed
qed

lemma efold_invariant:
  assumes "efold f xs s = Inr s'" and "P s"
    and "\<And>x a b. f x a = Inr b \<Longrightarrow> P a \<Longrightarrow> P b"
  shows "P s'"
  using assms(1,2)
proof (induction xs arbitrary: s)
  case Nil
  then show ?case by simp
next
  case (Cons x xs)
  from Cons.prems(1) obtain s1 where 1: "f x s = Inr s1" and 2: "efold f xs s1 = Inr s'"
    by (auto split: sum.splits)
  from assms(3)[OF 1 Cons.prems(2)] have "P s1" .
  from Cons.IH[OF 2 this] show ?case .
qed

lemma write_cell_title:
  "write_cell lib ws r c v = Inr ws' \<Longrightarrow> ws_title ws' = ws_title ws"
  by (auto dest!: write_cell_Inr simp: put_cell_simps)

lemma stats_row_title:
  assumes "stats_row lib item st = Inr st'"
  shows "ws_title (fst st') = ws_title (fst st)"
proof -
  from assms obtain ws where
    1: "efold (\<lambda>cv ws. write_cell lib ws (snd st) (fst cv) (snd cv))
         [(1, Text (fst item)),
          (2, Number (round2 lib (stat_mean (snd item)))),
          (3, Number (round2 lib (stat_median (snd item)))),
          (4, Number (round2 lib (stat_std (snd item)))),
          (5, Number (round2 lib (stat_min (snd item)))),
          (6, Number (round2 lib (stat_max (snd item)))),
          (7, Number (Float (real (stat_count (snd item)))))] (fst st) = Inr ws"
    and 2: "st' = (ws, snd st + 1)"
    by (auto simp: stats_row_def Let_def split: sum.splits)
  have "ws_title ws = ws_title (fst st)"
    by (rule efold_invariant[OF 1, where P = "\<lambda>w. ws_title w = ws_title (fst st)"])
       (simp_all add: write_cell_title)
  with 2 show ?thesis by simp
qed

lemma summary_block_title:
  assumes "summary_block lib item st = Inr st'"
  shows "ws_title (fst st') = ws_title (fst st)"
proof -
  from assms obtain ws1 ws3 st4 where
    1: "write_cell lib (fst st) (snd st) 1 (Text (''Sheet: '' @ fst item)) = Inr ws1" and
    3: "efold (\<lambda>ch ws. header_cell lib ws (snd st + 2) (fst ch) (snd ch)) (enumerate 1 headers)
          (put_cell ws1 (snd st, 1)
             ((get_cell ws1 (snd st, 1))
                \<lparr> cell_font := Some \<lparr> font_color = None, font_bold = True, font_size = Some 14 \<rparr> \<rparr>))
        = Inr ws3" and
    4: "efold (stats_row lib) (snd item) (ws3, snd st + 2 + 1) = Inr st4" and
    5: "st' = (fst st4, snd st4 + 2)"
    by (auto simp: summary_block_def Let_def split: sum.splits)
  have t1: "ws_title ws1 = ws_title (fst st)" using 1 by (rule write_cell_title)
  have t3: "ws_title ws3 = ws_title (fst st)"
    using header_loop[OF 3] t1 by (simp add: put_cell_simps)
  have "ws_title (fst st4) = ws_title (fst st)"
    by (rule efold_invariant[OF 4, where P = "\<lambda>s. ws_title (fst s) = ws_title (fst st)"])
       (simp_all add: t3 stats_row_title)
  with 5 show ?thesis by simp
qed

lemma summary_sheet_title:
  assumes "summary_sheet lib sd = Inr ws"
  shows "ws_title ws = ''Summary_Statistics''"
proof -
  from assms obtain ws0 st where
    0: "create_sheet lib ''Summary_Statistics'' = Inr ws0" and
    1: "efold (summary_block lib) sd (ws0, 1) = Inr st" and
    2: "ws = fst st"
    by (auto simp: summary_sheet_def split: sum.splits)
  have "ws_title (fst st) = ''Summary_Statistics''"
    by (rule efold_invariant[OF 1, where P = "\<lambda>s. ws_title (fst s) = ''Summary_Statistics''"])
       (simp_all add: create_sheet_Inr[OF 0] summary_block_title)
  with 2 show ?thesis by simp
qed

lemma adjust_widths_title: "ws_title (adjust_widths lib ws) = ws_title ws"
  using adjust_widths_extends[of ws lib] by (simp add: ws_extends_def)

lemma adjust_widths_charts: "ws_charts (adjust_widths lib ws) = ws_charts ws"
  using adjust_widths_extends[of ws lib] by (simp add: ws_extends_def)

lemma list_all2_titles:
  "list_all2 (\<lambda>item ws. original_sheet lib item = Inr ws) od wss \<Longrightarrow>
   map ws_title wss = map (\<lambda>item. ''Original_'' @ fst item) od"
proof (induction od wss rule: list_all2_induct)
  case Nil
  then show ?case by simp
next
  case (Cons item od ws wss)
  from Cons.hyps(1) have "ws_title ws = ''Original_'' @ fst item"
    using original_sheet_Inr(1)[of lib "fst item" "snd item" ws] by simp
  with Cons.IH show ?case by simp
qed

lemma create_summary_excel_titles:
  assumes "create_summary_excel lib sd od = Inr wb"
  shows "map ws_title wb = ''Summary_Statistics'' # map (\<lambda>item. ''Original_'' @ fst item) od"
proof -
  from create_summary_excel_Inr[OF assms] obtain ws0 wss where
    0: "summary_sheet lib sd = Inr ws0" and
    1: "list_all2 (\<lambda>item ws. original_sheet lib item = Inr ws) od wss" and
    2: "wb = map (adjust_widths lib) (ws0 # wss)"
    by blast
  have "map ws_title wb = map ws_title (ws0 # wss)"
    unfolding 2 by (simp add: adjust_widths_title comp_def)
  then show ?thesis
    using summary_sheet_title[OF 0] list_all2_titles[OF 1] by simp
qed

lemma create_summary_excel_nth:
  assumes "create_summary_excel lib sd od = Inr wb" and "i < length od"
  shows "\<exists>ws. original_sheet lib (od ! i) = Inr ws \<and> wb ! Suc i = adjust_widths lib ws \<and>
              Suc i < length wb"
proof -
  from create_summary_excel_Inr[OF assms(1)] obtain ws0 wss where
    1: "list_all2 (\<lambda>item ws. original_sheet lib item = Inr ws) od wss" and
    2: "wb = map (adjust_widths lib) (ws0 # wss)"
    by blast
  from 1 have l: "length wss = length od" by (simp add: list_all2_lengthD)
  have "original_sheet lib (od ! i) = Inr (wss ! i)"
    using list_all2_nthD[OF 1 assms(2)] .
  moreover have "wb ! Suc i = adjust_widths lib (wss ! i)"
    unfolding 2 using l assms(2) by simp
  moreover have "Suc i < length wb" unfolding 2 using l assms(2) by simp
  ultimately show ?thesis by blast
qed

lemma column_getitem:
  "distinct (map fst (df_columns df)) \<Longrightarrow> (c, s) \<in> set (df_columns df) \<Longrightarrow>
   df_getitem df c = Inr s"
  using map_of_is_SomeI[of "df_columns df" c s] by (simp add: df_getitem_def)

lemma numeric_cols_getitem:
  assumes "distinct (map fst (df_columns df))" and "c \<in> set (numeric_cols df)"
  shows "\<exists>s. df_getitem df c = Inr s \<and> is_number s \<and> (c, s) \<in> set (df_columns df)"
proof -
  from assms(2) obtain s where m: "(c, s) \<in> set (df_columns df)" and n: "is_number s"
    by (auto simp: numeric_cols_def)
  from column_getitem[OF assms(1) m] m n show ?thesis by blast
qed

lemma numeric_cols_mem:
  "(c, s) \<in> set (df_columns df) \<Longrightarrow> is_number s \<Longrightarrow> c \<in> set (numeric_cols df)"
  by (force simp: numeric_cols_def)

lemma dropna_delta_empty: "dropna_delta ds = [] \<longleftrightarrow> list_all (\<lambda>d. d = None) ds"
  by (induction ds rule: dropna_delta.induct) simp_all

lemma no_durations_col:
  "no_durations df \<Longrightarrow> (c, DeltaSeries ds) \<in> set (df_columns df) \<Longrightarrow> dropna_delta ds = []"
  by (force simp: no_durations_def list_all_iff dropna_delta_empty)

lemma stats_loop_total:
  assumes "\<And>c. c \<in> set cols \<Longrightarrow>
             (\<exists>vs. df_getitem df c = Inr (NumSeries vs)) \<or>
             (\<exists>ds. df_getitem df c = Inr (DeltaSeries ds) \<and> dropna_delta ds = [])"
  shows "\<exists>st. stats_loop lib df cols acc = Inr st \<and>
           (\<forall>c vs. c \<in> set cols \<longrightarrow> df_getitem df c = Inr (NumSeries vs) \<longrightarrow> dropna vs \<noteq> [] \<longrightarrow>
                   map_of st c = Some (column_stats lib (dropna vs))) \<and>
           (\<forall>c. c \<notin> set cols \<longrightarrow> map_of st c = map_of acc c)"
  using assms
proof (induction cols arbitrary: acc)
  case Nil
  then show ?case by simp
next
  case (Cons c cols)
  have tl: "(\<exists>vs. df_getitem df c' = Inr (NumSeries vs)) \<or>
            (\<exists>ds. df_getitem df c' = Inr (DeltaSeries ds) \<and> dropna_delta ds = [])"
    if "c' \<in> set cols" for c'
    using Cons.prems[of c'] that by simp
  from Cons.prems[of c] consider
      (num) vs where "df_getitem df c = Inr (NumSeries vs)"
    | (delta) ds where "df_getitem df c = Inr (DeltaSeries ds)" "dropna_delta ds = []"
    by auto
  then show ?case
  proof cases
    case delta
    from Cons.IH[OF tl, of acc] obtain st where
      st: "stats_loop lib df cols acc = Inr st"
          "\<forall>c vs. c \<in> set cols \<longrightarrow> df_getitem df c = Inr (NumSeries vs) \<longrightarrow> dropna vs \<noteq> [] \<longrightarrow>
                   map_of st c = Some (column_stats lib (dropna vs))"
          "\<forall>c. c \<notin> set cols \<longrightarrow> map_of st c = map_of acc c"
      by blast
    have eq: "stats_loop lib df (c # cols) acc = Inr st" using delta st(1) by simp
    show ?thesis
      unfolding eq using st(2,3) delta by auto
  next
    case (num vs)
    show ?thesis
    proof (cases "dropna vs = []")
      case True
      from Cons.IH[OF tl, of acc] obtain st where
        st: "stats_loop lib df cols acc = Inr st"
            "\<forall>c vs. c \<in> set cols \<longrightarrow> df_getitem df c = Inr (NumSeries vs) \<longrightarrow> dropna vs \<noteq> [] \<longrightarrow>
                     map_of st c = Some (column_stats lib (dropna vs))"
            "\<forall>c. c \<notin> set cols \<longrightarrow> map_of st c = map_of acc c"
        by blast
      have eq: "stats_loop lib df (c # cols) acc = Inr st" using num True st(1) by simp
      show ?thesis
        unfolding eq using st(2,3) num True by auto
    next
      case False
      let ?acc = "dict_set c (column_stats lib (dropna vs)) acc"
      from Cons.IH[OF tl, of ?acc] obtain st where
        st: "stats_loop lib df cols ?acc = Inr st"
            "\<forall>c vs. c \<in> set cols \<longrightarrow> df_getitem df c = Inr (NumSeries vs) \<longrightarrow> dropna vs \<noteq> [] \<longrightarrow>
                     map_of st c = Some (column_stats lib (dropna vs))"
            "\<forall>c'. c' \<notin> set cols \<longrightarrow> map_of st c' = map_of ?acc c'"
        by blast
      have eq: "stats_loop lib df (c # cols) acc = Inr st" using num False st(1) by simp
      have a: "map_of st c = Some (column_stats lib (dropna vs))"
      proof (cases "c \<in> set cols")
        case True
        with st(2) num False show ?thesis by blast
      next
        case F: False
        with st(3) show ?thesis by (simp add: map_of_dict_set)
      qed
      have b: "map_of st c' = map_of acc c'" if "c' \<noteq> c" "c' \<notin> set cols" for c'
        using st(3) that by (simp add: map_of_dict_set)
      show ?thesis
        unfolding eq using st(2) a b num by auto
    qed
  qed
qed

lemma sheet_body_total:
  assumes "distinct (map fst (df_columns df))" and "no_durations df"
  shows "(numeric_cols df = [] \<longrightarrow> sheet_body lib (Inr df) = Inr None) \<and>
         (numeric_cols df \<noteq> [] \<longrightarrow>
            (\<exists>st. sheet_body lib (Inr df) = Inr (Some (st, df)) \<and>
                  (\<forall>c vs. (c, NumSeries vs) \<in> set (df_columns df) \<longrightarrow> dropna vs \<noteq> [] \<longrightarrow>
                          map_of st c = Some (column_stats lib (dropna vs)))))"
proof -
  have pre: "(\<exists>vs. df_getitem df c = Inr (NumSeries vs)) \<or>
             (\<exists>ds. df_getitem df c = Inr (DeltaSeries ds) \<and> dropna_delta ds = [])"
    if "c \<in> set (numeric_cols df)" for c
  proof -
    from numeric_cols_getitem[OF assms(1) that] obtain s where
      s: "df_getitem df c = Inr s" "is_number s" "(c, s) \<in> set (df_columns df)"
      by blast
    show ?thesis
    proof (cases s)
      case (NumSeries vs)
      with s show ?thesis by simp
    next
      case (DeltaSeries ds)
      with s no_durations_col[OF assms(2), of c ds] show ?thesis by simp
    next
      case (ObjSeries vs)
      with s show ?thesis by simp
    qed
  qed
  from stats_loop_total[of "numeric_cols df" df lib "[]", OF pre] obtain st where
    st: "stats_loop lib df (numeric_cols df) [] = Inr st"
        "\<forall>c vs. c \<in> set (numeric_cols df) \<longrightarrow> df_getitem df c = Inr (NumSeries vs) \<longrightarrow>
                dropna vs \<noteq> [] \<longrightarrow> map_of st c = Some (column_stats lib (dropna vs))"
    by blast
  have "map_of st c = Some (column_stats lib (dropna vs))"
    if "(c, NumSeries vs) \<in> set (df_columns df)" "dropna vs \<noteq> []" for c vs
  proof -
    have "c \<in> set (numeric_cols df)" using that(1) by (rule numeric_cols_mem) simp
    moreover have "df_getitem df c = Inr (NumSeries vs)" using assms(1) that(1) by (rule column_getitem)
    ultimately show ?thesis using st(2) that(2) by blast
  qed
  with st(1) show ?thesis by (auto simp: sheet_body_def)
qed

lemma process_sheets_lookup_other:
  "n \<notin> fst ` set shs \<Longrightarrow>
   map_of (summary (fst (process_sheets lib shs st))) n = map_of (summary (fst st)) n \<and>
   map_of (snd (process_sheets lib shs st)) n = map_of (snd st) n"
proof (induction shs arbitrary: st)
  case Nil
  then show ?case by simp
next
  case (Cons sh shs)
  from Cons.prems have 1: "n \<notin> fst ` set shs" and 2: "fst sh \<noteq> n" by auto
  have "map_of (summary (fst (process_sheet lib sh st))) n = map_of (summary (fst st)) n \<and>
        map_of (snd (process_sheet lib sh st)) n = map_of (snd st) n"
    using 2 by (auto simp: process_sheet_def map_of_dict_set split: sum.splits option.splits)
  with Cons.IH[OF 1, of "process_sheet lib sh st"] show ?case by simp
qed

lemma process_sheets_lookup:
  assumes "distinct (map fst shs)" and "(n, rd) \<in> set shs"
    and "sheet_body lib rd = Inr (Some (s, df))"
  shows "map_of (summary (fst (process_sheets lib shs st))) n = Some s \<and>
         map_of (snd (process_sheets lib shs st)) n = Some df"
  using assms(1,2)
proof (induction shs arbitrary: st)
  case Nil
  then show ?case by simp
next
  case (Cons sh shs)
  show ?case
  proof (cases "sh = (n, rd)")
    case True
    with Cons.prems(1) have nn: "n \<notin> fst ` set shs" by simp
    have "map_of (summary (fst (process_sheet lib sh st))) n = Some s \<and>
          map_of (snd (process_sheet lib sh st)) n = Some df"
      using True assms(3) by (simp add: process_sheet_def map_of_dict_set)
    with process_sheets_lookup_other[OF nn, of lib "process_sheet lib sh st"] show ?thesis by simp
  next
    case False
    with Cons.prems have "distinct (map fst shs)" "(n, rd) \<in> set shs" by auto
    from Cons.IH[OF this, of "process_sheet lib sh st"] show ?thesis by simp
  qed
qed

lemma numeric_cols_empty: "numeric_cols df = [] \<longleftrightarrow> \<not> has_number_column df"
  by (auto simp: numeric_cols_def has_number_column_def list_ex_iff filter_empty_conv)

lemma sheet_body_clean:
  "sheet_body lib (Inr df) = Inr r \<Longrightarrow>
   (has_number_column df \<longrightarrow> (\<exists>st. r = Some (st, df))) \<and> (\<not> has_number_column df \<longrightarrow> r = None)"
  by (auto simp: sheet_body_def numeric_cols_empty split: if_splits sum.splits)

lemma outcome_entry_clean:
  "sheet_body lib (Inr df) = Inr r \<Longrightarrow>
   outcome_entry lib (name, Inr df) = (if has_number_column df then [name] else [])"
  using sheet_body_clean[of lib df r] by (auto simp: outcome_entry_def)

lemma run_sheets_processed:
  "process_excel_file lib (Workbook shs) fname = Inr res \<Longrightarrow>
   sheets_processed res = concat (map (outcome_entry lib) shs)"
  using process_excel_file_Inr[of lib shs fname res]
  by (simp add: process_sheets_sheets_processed init_results_def)

lemma run_keys:
  "process_excel_file lib (Workbook shs) fname = Inr res \<Longrightarrow>
   fst ` set (summary res) = {n. \<exists>rd r. (n, rd) \<in> set shs \<and> sheet_body lib rd = Inr (Some r)}"
  using process_excel_file_Inr[of lib shs fname res]
  by (simp add: process_sheets_keys init_results_def)

lemma run_output:
  assumes "process_excel_file lib (Workbook shs) fname = Inr res"
    and "process_sheets lib shs (init_results fname, []) = (r, od)"
  shows "(summary r = [] \<and> res = r) \<or>
         (summary r \<noteq> [] \<and>
          (\<exists>wb. create_summary_excel lib (summary r) od = Inr wb \<and>
                res = r\<lparr> output_file := Some wb,
                         output_filename := Some (''processed_'' @ fname) \<rparr>))"
  using assms by (auto simp: process_excel_file_def Let_def split: if_splits sum.splits)

lemma loop_no_output:
  "process_sheets lib shs (init_results fname, []) = (r, od) \<Longrightarrow>
   output_file r = None \<and> output_filename r = None"
  using process_sheets_other_fields[of lib shs "(init_results fname, [])"]
  by (simp add: init_results_def)

lemma loop_tables:
  "process_sheets lib shs (init_results fname, []) = (r, od) \<Longrightarrow> map fst od = map fst (summary r)"
  using process_sheets_all_data_keys[of "(init_results fname, [])" lib shs]
  by (simp add: init_results_def)

lemma annotated_colon: "annotated s \<Longrightarrow> CHR '':'' \<in> set s"
  by (auto simp: annotated_def)

lemma annotated_error_entry: "annotated (error_entry name e)"
  by (auto simp: annotated_def error_entry_def)

lemma original_sheet_cells:
  assumes "original_sheet lib (n, df) = Inr ws"
  shows "j < length (df_columns df) \<Longrightarrow>
         cell_at ws (1, j + 1) =
           Some \<lparr> cell_value = Text (fst (df_columns df ! j)),
                  cell_fill = Some header_fill, cell_font = Some header_font \<rparr>"
    and "k < df_len df \<Longrightarrow> j < length (df_columns df) \<Longrightarrow>
         cell_at ws (k + 2, j + 1) =
           Some (blank_cell\<lparr> cell_value := series_values (snd (df_columns df ! j)) ! k \<rparr>)"
proof -
  show "cell_at ws (1, j + 1) =
           Some \<lparr> cell_value = Text (fst (df_columns df ! j)),
                  cell_fill = Some header_fill, cell_font = Some header_font \<rparr>"
    if "j < length (df_columns df)"
    using original_sheet_Inr(3)[OF assms, of 1 "j + 1"] that by simp
  show "cell_at ws (k + 2, j + 1) =
           Some (blank_cell\<lparr> cell_value := series_values (snd (df_columns df ! j)) ! k \<rparr>)"
    if "k < df_len df" "j < length (df_columns df)"
  proof -
    have l: "length (df_values df) = df_len df" by (simp add: df_values_def)
    have r: "df_values df ! k = map (\<lambda>c. series_values (snd c) ! k) (df_columns df)"
      using that(1) by (simp add: df_values_def)
    have c: "2 \<le> k + 2 \<and> k + 2 < 2 + length (df_values df) \<and> 1 \<le> j + 1 \<and>
             j + 1 < 1 + length (df_values df ! (k + 2 - 2))"
      using that l r by simp
    have "cell_at ws (k + 2, j + 1) =
            Some (blank_cell\<lparr> cell_value := df_values df ! (k + 2 - 2) ! (j + 1 - 1) \<rparr>)"
      using original_sheet_Inr(3)[OF assms, of "k + 2" "j + 1"] unfolding if_P[OF c] .
    then show ?thesis using r that(2) by simp
  qed
qed

lemma loop_retains:
  assumes "process_sheets lib shs (init_results fname, []) = (r, od)"
    and "distinct (map fst shs)" and "(name, Inr df) \<in> set shs"
    and "wf_df df" and "no_durations df" and "has_number_column df"
  shows "summary r \<noteq> [] \<and> (\<exists>i. i < length od \<and> od ! i = (name, df))"
proof -
  from assms(4) have d: "distinct (map fst (df_columns df))" by (simp add: wf_df_def)
  from assms(6) have nc: "numeric_cols df \<noteq> []" by (simp add: numeric_cols_empty)
  from sheet_body_total[OF d assms(5), of lib] nc obtain st where
    b: "sheet_body lib (Inr df) = Inr (Some (st, df))"
    by blast
  from process_sheets_lookup[OF assms(2,3) b, of "(init_results fname, [])"] assms(1)
  have s: "map_of (summary r) name = Some st" and o: "map_of od name = Some df" by simp_all
  from s have "summary r \<noteq> []" by auto
  moreover from o have "(name, df) \<in> set od" by (rule map_of_SomeD)
  then have "\<exists>i. i < length od \<and> od ! i = (name, df)" by (simp add: in_set_conv_nth)
  ultimately show ?thesis by blast
qed

lemma ws_extends_cell:
  "ws_extends ws ws' \<Longrightarrow> cell_at ws k = Some c \<Longrightarrow> cell_at ws' k = Some c"
  by (cases k) (simp add: ws_extends_def)

lemma add_chart_without: "without_charts (add_chart lib n df ws) = without_charts ws"
  by (simp add: add_chart_def without_charts_def Let_def split: sum.splits)

lemma touch_cell_without: "touch_cell rc (without_charts ws) = without_charts (touch_cell rc ws)"
  by (simp add: touch_cell_def put_cell_def without_charts_def split: option.splits)

lemma fold_touch_without:
  "fold (\<lambda>r. touch_cell (r, c)) rs (without_charts ws) =
   without_charts (fold (\<lambda>r. touch_cell (r, c)) rs ws)"
  by (induction rs arbitrary: ws) (simp_all add: touch_cell_without)

lemma get_cell_without: "get_cell (without_charts ws) k = get_cell ws k"
  by (simp add: get_cell_def without_charts_def)

lemma adjust_column_without:
  "adjust_column lib rows c (without_charts ws) = without_charts (adjust_column lib rows c ws)"
  by (simp add: adjust_column_def Let_def fold_touch_without get_cell_without)
     (simp add: without_charts_def)

lemma fold_adjust_without:
  "fold (adjust_column lib rows) cs (without_charts ws) =
   without_charts (fold (adjust_column lib rows) cs ws)"
  by (induction cs arbitrary: ws) (simp_all add: adjust_column_without)

lemma adjust_widths_without:
  "adjust_widths lib (without_charts ws) = without_charts (adjust_widths lib ws)"
proof -
  have "max_row (without_charts ws) = max_row ws" "max_column (without_charts ws) = max_column ws"
    by (simp_all add: max_row_def max_column_def without_charts_def)
  then show ?thesis by (simp add: adjust_widths_def fold_adjust_without)
qed

lemma adjust_widths_chart_error:
  "adjust_widths (lib\<lparr> chart_error := f \<rparr>) ws = adjust_widths lib ws"
proof -
  have "adjust_column (lib\<lparr> chart_error := f \<rparr>) = adjust_column lib"
    by (simp add: fun_eq_iff adjust_column_def column_width_def)
  then show ?thesis by (simp add: adjust_widths_def)
qed

lemma original_sheet_core:
  assumes "original_sheet lib (n, df) = Inr ws"
  shows "\<exists>ws2. ws_charts ws2 = [] \<and> ws = add_chart lib n df ws2 \<and>
           (\<forall>f. original_sheet (lib\<lparr> chart_error := f \<rparr>) (n, df) =
                  Inr (add_chart (lib\<lparr> chart_error := f \<rparr>) n df ws2))"
proof -
  from assms obtain ws0 ws1 ws2 where
    0: "create_sheet lib (''Original_'' @ n) = Inr ws0" and
    1: "efold (\<lambda>ch ws. header_cell lib ws 1 (fst ch) (snd ch))
          (enumerate 1 (map fst (df_columns df))) ws0 = Inr ws1" and
    2: "efold (\<lambda>rr ws. efold (\<lambda>cv ws. write_cell lib ws (fst rr) (fst cv) (snd cv))
                          (enumerate 1 (snd rr)) ws)
          (enumerate 2 (df_values df)) ws1 = Inr ws2" and
    3: "ws = add_chart lib n df ws2"
    by (auto simp: original_sheet_def Let_def split: sum.splits)
  have c: "ws_charts ws2 = []"
    using header_loop[OF 1] rows_loop[OF 2] create_sheet_Inr[OF 0] by simp
  have e: "create_sheet (lib\<lparr> chart_error := f \<rparr>) = create_sheet lib"
          "header_cell (lib\<lparr> chart_error := f \<rparr>) = header_cell lib"
          "write_cell (lib\<lparr> chart_error := f \<rparr>) = write_cell lib" for f
    by (simp_all add: fun_eq_iff create_sheet_def header_cell_def write_cell_def)
  have "original_sheet (lib\<lparr> chart_error := f \<rparr>) (n, df) =
          Inr (add_chart (lib\<lparr> chart_error := f \<rparr>) n df ws2)" for f
    by (simp only: original_sheet_def Let_def fst_conv snd_conv e 0 1 2 sum.case)
  with c 3 show ?thesis by blast
qed

lemma first_number_column:
  assumes "distinct (map fst (df_columns df))" and "has_number_column df"
  shows "get_loc (df_columns df) (hd (numeric_cols df)) = Some (first_number_column df)"
proof -
  let ?cols = "df_columns df"
  from assms(2) have ne: "filter (\<lambda>c. is_number (snd c)) ?cols \<noteq> []"
    by (simp add: has_number_column_def list_ex_iff filter_empty_conv)
  from get_loc_first[OF assms(1) ne] obtain loc where
    l: "get_loc ?cols (hd (map fst (filter (\<lambda>c. is_number (snd c)) ?cols))) = Some loc"
       "loc < length ?cols" "is_number (snd (?cols ! loc))"
       "\<forall>k<loc. \<not> is_number (snd (?cols ! k))"
    by blast
  have "takeWhile (\<lambda>c. \<not> is_number (snd c)) ?cols = take loc ?cols"
    by (rule takeWhile_eq_take_P_nth) (use l in auto)
  then have "first_number_column df = loc"
    using l(2) by (simp add: first_number_column_def)
  with l(1) show ?thesis by (simp add: numeric_cols_def)
qed

lemma add_chart_charts:
  assumes "distinct (map fst (df_columns df))" and "ws_charts ws = []"
  shows "ws_charts (add_chart lib n df ws) =
           (if has_number_column df \<and> 2 \<le> df_len df \<and> chart_error lib n = None
            then [(\<lparr> chart_title = ''Data Overview - '' @ n,
                     y_axis_title = ''Values'', x_axis_title = ''Records'',
                     chart_data = [\<lparr> ref_min_col = first_number_column df + 1, ref_min_row = 2,
                                     ref_max_row = min 20 (df_len df + 1) \<rparr>] \<rparr>, ''H2'')]
            else [])"
proof (cases "has_number_column df")
  case False
  then have "numeric_cols df = []" by (simp add: numeric_cols_empty)
  with False assms(2) show ?thesis by (simp add: add_chart_def)
next
  case True
  then have ne: "numeric_cols df \<noteq> []" by (simp add: numeric_cols_empty)
  then have h: "hd (take 5 (numeric_cols df)) = hd (numeric_cols df)"
    by (cases "numeric_cols df") simp_all
  from ne have g: "0 < length (take 5 (numeric_cols df))" by (cases "numeric_cols df") simp_all
  note loc = first_number_column[OF assms(1) True]
  show ?thesis
    using True assms(2) g
    by (auto simp: add_chart_def Let_def h build_chart_def loc split: option.splits)
qed

section \<open>The example inputs, evaluated\<close>

lemma exact_on_example: "length xs > 1 \<Longrightarrow> exact_on (example_lib d) xs"
  by (auto simp: exact_on_def example_lib_def lib_with_std_def exact_std_def
        sample_standard_deviation_def arithmetic_mean_def list_all_iff of_nat_diff)

lemma column_stats_sales:
  assumes "exact_on lib [10, 20, 30]"
  shows "column_stats lib [10, 20, 30] = sales_stats"
proof -
  have "sqrt 100 = 10" using real_sqrt_abs[of 10] by simp
  with assms show ?thesis
    by (simp add: exact_on_def column_stats_def sales_stats_def arithmetic_mean_def
          median_value_def sample_standard_deviation_def pd_min_def pd_max_def Let_def)
qed

lemma sales_body:
  "exact_on lib [10, 20, 30] \<Longrightarrow>
   sheet_body lib (Inr sales_df) = Inr (Some ([(''Revenue'', sales_stats)], sales_df))"
  by (simp add: sheet_body_def sales_df_def numeric_cols_def df_getitem_def column_stats_sales)

lemma sales_sheets:
  "exact_on lib [10, 20, 30] \<Longrightarrow>
   process_sheets lib [(''Sales'', Inr sales_df)] (init_results fn, []) =
     ((init_results fn)\<lparr> summary := [(''Sales'', [(''Revenue'', sales_stats)])],
                           sheets_processed := [''Sales''] \<rparr>,
      [(''Sales'', sales_df)])"
  by (simp add: process_sheet_def sales_body init_results_def)

lemma sales_report:
  "\<not> isl (create_summary_excel (example_lib d) [(''Sales'', [(''Revenue'', cs)])]
            [(''Sales'', sales_df)])"
proof -
  have "\<not> isl (create_summary_excel (lib_with_std d std) [(''Sales'', [(''Revenue'', cs)])]
            [(''Sales'', sales_df)])" for std
    by code_simp
  then show ?thesis by (simp add: example_lib_def)
qed

lemma sales_run:
  "\<exists>wb. process_excel_file (example_lib d) (Workbook [(''Sales'', Inr sales_df)]) fn =
     Inr ((init_results fn)\<lparr> summary := [(''Sales'', [(''Revenue'', sales_stats)])],
                              sheets_processed := [''Sales''],
                              output_file := Some wb,
                              output_filename := Some (''processed_'' @ fn) \<rparr>)"
proof -
  have e: "exact_on (example_lib d) [10, 20, 30]" by (rule exact_on_example) simp
  from sales_report[of d sales_stats] obtain wb where
    "create_summary_excel (example_lib d) [(''Sales'', [(''Revenue'', sales_stats)])]
       [(''Sales'', sales_df)] = Inr wb"
    by (cases "create_summary_excel (example_lib d) [(''Sales'', [(''Revenue'', sales_stats)])]
                 [(''Sales'', sales_df)]") auto
  then show ?thesis
    by (intro exI[of _ wb])
       (simp add: process_excel_file_def sales_sheets[OF e] Let_def del: process_sheets.simps)
qed

lemma run_of_report:
  assumes "process_sheets lib shs (init_results fn, []) = (r, od)"
    and "summary r \<noteq> []"
    and "create_summary_excel lib (summary r) od = Inr wb"
  shows "process_excel_file lib (Workbook shs) fn =
           Inr (r\<lparr> output_file := Some wb, output_filename := Some (''processed_'' @ fn) \<rparr>)"
  using assms by (simp add: process_excel_file_def Let_def)

lemma bonus_sheets:
  "process_sheets lib [(''Sales'', Inr bonus_df)] (init_results fn, []) =
     ((init_results fn)\<lparr> summary := [(''Sales'', [(''Revenue'', column_stats lib [10, 20, 30]),
                                                    (''Bonus'', column_stats lib [5])])],
                           sheets_processed := [''Sales''] \<rparr>,
      [(''Sales'', bonus_df)])"
  by (simp add: process_sheet_def sheet_body_def bonus_df_def numeric_cols_def df_getitem_def
        init_results_def)

lemma bonus_report:
  "\<not> isl (create_summary_excel (example_lib d) [(''Sales'', [(''Revenue'', cs), (''Bonus'', cs')])]
            [(''Sales'', bonus_df)])"
proof -
  have "\<not> isl (create_summary_excel (lib_with_std d std)
                 [(''Sales'', [(''Revenue'', cs), (''Bonus'', cs')])] [(''Sales'', bonus_df)])" for std
    by code_simp
  then show ?thesis by (simp add: example_lib_def)
qed

lemma bonus_run:
  "\<exists>res. process_excel_file (example_lib d) (Workbook [(''Sales'', Inr bonus_df)]) fn = Inr res"
proof -
  let ?lib = "example_lib d"
  let ?sd = "[(''Sales'', [(''Revenue'', column_stats ?lib [10, 20, 30]),
                          (''Bonus'', column_stats ?lib [5])])]"
  from bonus_report[of d "column_stats ?lib [10, 20, 30]" "column_stats ?lib [5]"] obtain wb where
    wb: "create_summary_excel ?lib ?sd [(''Sales'', bonus_df)] = Inr wb"
    by (cases "create_summary_excel ?lib ?sd [(''Sales'', bonus_df)]") auto
  have "process_excel_file ?lib (Workbook [(''Sales'', Inr bonus_df)]) fn =
          Inr (((init_results fn)\<lparr> summary := ?sd, sheets_processed := [''Sales''] \<rparr>)
                 \<lparr> output_file := Some wb, output_filename := Some (''processed_'' @ fn) \<rparr>)"
    by (rule run_of_report[OF bonus_sheets]) (simp_all add: wb)
  then show ?thesis by blast
qed

lemma notes_body: "sheet_body lib (Inr notes_df) = Inr None"
  by (simp add: sheet_body_def notes_df_def numeric_cols_def)

lemma notes_run:
  "process_excel_file lib (Workbook [(''Notes'', Inr notes_df)]) fn = Inr (init_results fn)"
  by (simp add: process_excel_file_def process_sheet_def notes_body init_results_def)

lemma notes_sales_run:
  "\<exists>wb. process_excel_file (example_lib d)
           (Workbook [(''Notes'', Inr notes_df), (''Sales'', Inr sales_df)]) fn =
          Inr (((init_results fn)\<lparr> summary := [(''Sales'', [(''Revenue'', sales_stats)])],
                                     sheets_processed := [''Sales''] \<rparr>)
                 \<lparr> output_file := Some wb, output_filename := Some (''processed_'' @ fn) \<rparr>)"
proof -
  let ?lib = "example_lib d"
  have e: "exact_on ?lib [10, 20, 30]" by (rule exact_on_example) simp
  from sales_report[of d sales_stats] obtain wb where
    wb: "create_summary_excel ?lib [(''Sales'', [(''Revenue'', sales_stats)])]
           [(''Sales'', sales_df)] = Inr wb"
    by (cases "create_summary_excel ?lib [(''Sales'', [(''Revenue'', sales_stats)])]
                 [(''Sales'', sales_df)]") auto
  have s: "process_sheets ?lib [(''Notes'', Inr notes_df), (''Sales'', Inr sales_df)]
             (init_results fn, []) =
           ((init_results fn)\<lparr> summary := [(''Sales'', [(''Revenue'', sales_stats)])],
                                 sheets_processed := [''Sales''] \<rparr>,
            [(''Sales'', sales_df)])"
    by (simp add: process_sheet_def notes_body sales_body[OF e] init_results_def)
  have "process_excel_file ?lib (Workbook [(''Notes'', Inr notes_df), (''Sales'', Inr sales_df)]) fn =
          Inr (((init_results fn)\<lparr> summary := [(''Sales'', [(''Revenue'', sales_stats)])],
                                     sheets_processed := [''Sales''] \<rparr>)
                 \<lparr> output_file := Some wb, output_filename := Some (''processed_'' @ fn) \<rparr>)"
    by (rule run_of_report[OF s]) (simp_all add: wb)
  then show ?thesis by blast
qed

lemma sales_bad_run:
  "\<exists>wb. process_excel_file (example_lib d)
           (Workbook [(''Sales'', Inr sales_df), (''Bad'', Inl ''boom'')]) fn =
          Inr (((init_results fn)\<lparr> summary := [(''Sales'', [(''Revenue'', sales_stats)])],
                                     sheets_processed := [''Sales'', error_entry ''Bad'' ''boom''] \<rparr>)
                 \<lparr> output_file := Some wb, output_filename := Some (''processed_'' @ fn) \<rparr>)"
proof -
  let ?lib = "example_lib d"
  have e: "exact_on ?lib [10, 20, 30]" by (rule exact_on_example) simp
  from sales_report[of d sales_stats] obtain wb where
    wb: "create_summary_excel ?lib [(''Sales'', [(''Revenue'', sales_stats)])]
           [(''Sales'', sales_df)] = Inr wb"
    by (cases "create_summary_excel ?lib [(''Sales'', [(''Revenue'', sales_stats)])]
                 [(''Sales'', sales_df)]") auto
  have s: "process_sheets ?lib [(''Sales'', Inr sales_df), (''Bad'', Inl ''boom'')]
             (init_results fn, []) =
           ((init_results fn)\<lparr> summary := [(''Sales'', [(''Revenue'', sales_stats)])],
                                 sheets_processed := [''Sales'', error_entry ''Bad'' ''boom''] \<rparr>,
            [(''Sales'', sales_df)])"
    by (simp add: process_sheet_def sheet_body_def[of _ "Inl ''boom''"] sales_body[OF e]
          init_results_def)
  have "process_excel_file ?lib (Workbook [(''Sales'', Inr sales_df), (''Bad'', Inl ''boom'')]) fn =
          Inr (((init_results fn)\<lparr> summary := [(''Sales'', [(''Revenue'', sales_stats)])],
                                     sheets_processed := [''Sales'', error_entry ''Bad'' ''boom''] \<rparr>)
                 \<lparr> output_file := Some wb, output_filename := Some (''processed_'' @ fn) \<rparr>)"
    by (rule run_of_report[OF s]) (simp_all add: wb)
  then show ?thesis by blast
qed

lemma blank_sheets:
  "process_sheets lib [(''Data'', Inr blank_df)] (init_results fn, []) =
     ((init_results fn)\<lparr> summary := [(''Data'', [])], sheets_processed := [''Data''] \<rparr>,
      [(''Data'', blank_df)])"
  by (simp add: process_sheet_def sheet_body_def blank_df_def numeric_cols_def df_getitem_def
        init_results_def)

lemma blank_report:
  "\<not> isl (create_summary_excel (example_lib d) [(''Data'', [])] [(''Data'', blank_df)])"
proof -
  have "\<not> isl (create_summary_excel (lib_with_std d std) [(''Data'', [])]
                 [(''Data'', blank_df)])" for std
    by code_simp
  then show ?thesis by (simp add: example_lib_def)
qed

lemma blank_run:
  "\<exists>wb. process_excel_file (example_lib d) (Workbook [(''Data'', Inr blank_df)]) fn =
          Inr (((init_results fn)\<lparr> summary := [(''Data'', [])], sheets_processed := [''Data''] \<rparr>)
                 \<lparr> output_file := Some wb, output_filename := Some (''processed_'' @ fn) \<rparr>)"
proof -
  let ?lib = "example_lib d"
  from blank_report[of d] obtain wb where
    wb: "create_summary_excel ?lib [(''Data'', [])] [(''Data'', blank_df)] = Inr wb"
    by (cases "create_summary_excel ?lib [(''Data'', [])] [(''Data'', blank_df)]") auto
  have "process_excel_file ?lib (Workbook [(''Data'', Inr blank_df)]) fn =
          Inr (((init_results fn)\<lparr> summary := [(''Data'', [])], sheets_processed := [''Data''] \<rparr>)
                 \<lparr> output_file := Some wb, output_filename := Some (''processed_'' @ fn) \<rparr>)"
    by (rule run_of_report[OF blank_sheets]) (simp_all add: wb)
  then show ?thesis by blast
qed

lemma tab_sheets:
  "process_sheets lib [(''Sales'', Inr tab_df)] (init_results fn, []) =
     ((init_results fn)\<lparr> summary := [(''Sales'', [(''Revenue'', column_stats lib [1])])],
                           sheets_processed := [''Sales''] \<rparr>,
      [(''Sales'', tab_df)])"
  by (simp add: process_sheet_def sheet_body_def tab_df_def numeric_cols_def df_getitem_def
        init_results_def)

lemma tab_report:
  "create_summary_excel (example_lib d) [(''Sales'', [(''Revenue'', cs)])] [(''Sales'', tab_df)] =
     Inl ''IllegalCharacterError''"
proof -
  have "create_summary_excel (lib_with_std d std) [(''Sales'', [(''Revenue'', cs)])]
          [(''Sales'', tab_df)] = Inl ''IllegalCharacterError''" for std
    by code_simp
  then show ?thesis by (simp add: example_lib_def)
qed

lemma long_report:
  "\<not> isl (create_summary_excel (example_lib d) [(''Stock'', [])] [(''Stock'', long_df)])"
proof -
  have "\<not> isl (create_summary_excel (lib_with_std d std) [(''Stock'', [])]
                 [(''Stock'', long_df)])" for std
    by code_simp
  then show ?thesis by (simp add: example_lib_def)
qed

section \<open>The claims\<close>



text \<open>
  C2, as the code has it. The name of a sheet whose processing raises nothing is appended
  to the outcome list exactly when the sheet has a column of a number dtype: the append of
  line 95 stands under the test of line 78. The outcome list of the result is, sheet by
  sheet in order, what came before, the name of this sheet or nothing, and what comes
  after; and the iteration of a sheet without such a column changes nothing at all.
\<close>

theorem listed_only_with_number_column:
  assumes "process_excel_file lib (Workbook (before @ (name, Inr df) # after)) fname = Inr res"
    and "sheet_body lib (Inr df) = Inr r"
  shows "sheets_processed res =
           concat (map (outcome_entry lib) before) @
           (if has_number_column df then [name] else []) @
           concat (map (outcome_entry lib) after) \<and>
         (\<not> has_number_column df \<longrightarrow> process_sheet lib (name, Inr df) st = st)"
proof -
  have "sheets_processed res =
           concat (map (outcome_entry lib) before) @
           (if has_number_column df then [name] else []) @
           concat (map (outcome_entry lib) after)"
    using run_sheets_processed[OF assms(1)] outcome_entry_clean[OF assms(2), of name] by simp
  moreover have "process_sheet lib (name, Inr df) st = st" if "\<not> has_number_column df"
    using sheet_body_clean[OF assms(2)] that assms(2) by (simp add: process_sheet_def)
  ultimately show ?thesis by blast
qed

theorem listed_only_with_number_column_witness:
  "\<exists>res. process_excel_file (example_lib (Workbook []))
           (Workbook ([] @ (''Notes'', Inr notes_df) # [(''Sales'', Inr sales_df)]))
           ''input.xlsx'' = Inr res \<and>
         sheet_body (example_lib (Workbook [])) (Inr notes_df) = Inr None \<and>
         sheets_processed res = [''Sales'']"
proof -
  let ?lib = "example_lib (Workbook [])"
  have e: "exact_on ?lib [10, 20, 30]" by (rule exact_on_example) simp
  from notes_sales_run[of "Workbook []" "''input.xlsx''"] obtain res where
    run: "process_excel_file ?lib
            (Workbook ([] @ (''Notes'', Inr notes_df) # [(''Sales'', Inr sales_df)]))
            ''input.xlsx'' = Inr res"
    by auto
  have b: "sheet_body ?lib (Inr notes_df) = Inr None" by (rule notes_body)
  have n: "\<not> has_number_column notes_df" by (simp add: has_number_column_def notes_df_def)
  have o: "outcome_entry ?lib (''Sales'', Inr sales_df) = [''Sales'']"
    by (simp add: outcome_entry_def sales_body[OF e])
  from listed_only_with_number_column[OF run b] have "sheets_processed res = [''Sales'']"
    using n o by simp
  with run b show ?thesis by blast
qed

text \<open>
  C2 as stated fails: a workbook whose only sheet holds a column of text is processed
  without any exception, and the outcome list of the result is empty.
\<close>

theorem sheet_without_numbers_not_listed:
  "\<not> (\<forall>lib sheets fname res name df r.
         process_excel_file lib (Workbook sheets) fname = Inr res \<longrightarrow>
         (name, Inr df) \<in> set sheets \<longrightarrow>
         sheet_body lib (Inr df) = Inr r \<longrightarrow>
         name \<in> set (sheets_processed res))"
proof
  assume a: "\<forall>lib sheets fname res name df r.
         process_excel_file lib (Workbook sheets) fname = Inr res \<longrightarrow>
         (name, Inr df) \<in> set sheets \<longrightarrow>
         sheet_body lib (Inr df) = Inr r \<longrightarrow>
         name \<in> set (sheets_processed res)"
  let ?lib = "example_lib (Workbook [])"
  have 1: "process_excel_file ?lib (Workbook [(''Notes'', Inr notes_df)]) ''input.xlsx'' =
             Inr (init_results ''input.xlsx'')"
    by (rule notes_run)
  have 2: "(''Notes'', Inr notes_df) \<in> set [(''Notes'', Inr notes_df :: sheet_read)]" by simp
  have 3: "sheet_body ?lib (Inr notes_df) = Inr None" by (rule notes_body)
  from a 1 2 3 have "''Notes'' \<in> set (sheets_processed (init_results ''input.xlsx''))" by blast
  then show False by (simp add: init_results_def)
qed

text \<open>
  C5. Every key of the statistics mapping of the result is the name of a sheet that was
  read and whose statistics were computed without exception, and that name is in the
  outcome list, bare. When the sheet names are distinct, as they are in a workbook, a
  sheet whose processing raised has no entry in the mapping.
\<close>

theorem summary_keys_are_processed:
  assumes "process_excel_file lib (Workbook sheets) fname = Inr res"
  shows "(\<forall>name \<in> fst ` set (summary res).
            name \<in> set (sheets_processed res) \<and>
            (\<exists>df st. (name, Inr df) \<in> set sheets \<and>
                     sheet_body lib (Inr df) = Inr (Some (st, df)))) \<and>
         (distinct (map fst sheets) \<longrightarrow>
            (\<forall>name rd e. (name, rd) \<in> set sheets \<longrightarrow> sheet_body lib rd = Inl e \<longrightarrow>
                         map_of (summary res) name = None))"
proof (intro conjI ballI impI allI)
  fix name assume "name \<in> fst ` set (summary res)"
  then obtain rd r where m: "(name, rd) \<in> set sheets" and b: "sheet_body lib rd = Inr (Some r)"
    unfolding run_keys[OF assms] by blast
  obtain st df where r: "r = (st, df)" by (cases r)
  from b r have rd: "rd = Inr df" by (simp add: sheet_body_Some)
  have "outcome_entry lib (name, rd) = [name]" using b by (simp add: outcome_entry_def)
  with m have "name \<in> set (concat (map (outcome_entry lib) sheets))" by force
  then show "name \<in> set (sheets_processed res)"
    unfolding run_sheets_processed[OF assms] .
  from m b r rd show "\<exists>df st. (name, Inr df) \<in> set sheets \<and>
                              sheet_body lib (Inr df) = Inr (Some (st, df))"
    by blast
next
  fix name rd e
  assume d: "distinct (map fst sheets)" and m: "(name, rd) \<in> set sheets"
    and b: "sheet_body lib rd = Inl e"
  have "name \<notin> fst ` set (summary res)"
  proof
    assume "name \<in> fst ` set (summary res)"
    then obtain rd' r where m': "(name, rd') \<in> set sheets" and b': "sheet_body lib rd' = Inr (Some r)"
      unfolding run_keys[OF assms] by blast
    from eq_key_imp_eq_value[OF d m m'] have "rd = rd'" .
    with b b' show False by simp
  qed
  then show "map_of (summary res) name = None" by (simp add: map_of_eq_None_iff)
qed

theorem summary_keys_are_processed_witness:
  "\<exists>res. process_excel_file (example_lib (Workbook []))
           (Workbook [(''Sales'', Inr sales_df), (''Bad'', Inl ''boom'')]) ''input.xlsx'' = Inr res \<and>
         (fst ` set (summary res) \<noteq> {} \<longrightarrow> ''Sales'' \<in> fst ` set (summary res)) \<and>
         (\<forall>name \<in> fst ` set (summary res). name \<in> set (sheets_processed res)) \<and>
         map_of (summary res) ''Bad'' = None"
proof -
  let ?lib = "example_lib (Workbook [])"
  let ?shs = "[(''Sales'', Inr sales_df), (''Bad'', Inl ''boom'')] :: (string \<times> sheet_read) list"
  have e: "exact_on ?lib [10, 20, 30]" by (rule exact_on_example) simp
  from sales_bad_run[of "Workbook []" "''input.xlsx''"] obtain res where
    run: "process_excel_file ?lib (Workbook ?shs) ''input.xlsx'' = Inr res"
    by auto
  note t = summary_keys_are_processed[OF run]
  have d: "distinct (map fst ?shs)" by simp
  have m: "(''Bad'', Inl ''boom'') \<in> set ?shs" by simp
  have b: "sheet_body ?lib (Inl ''boom'') = Inl ''boom''" by (simp add: sheet_body_def)
  from t d m b have 1: "map_of (summary res) ''Bad'' = None" by blast
  from t have 2: "\<forall>name \<in> fst ` set (summary res). name \<in> set (sheets_processed res)" by blast
  have 3: "''Sales'' \<in> fst ` set (summary res)"
    unfolding run_keys[OF run] using sales_body[OF e] by auto
  from run 1 2 3 show ?thesis by blast
qed

text \<open>
  C10. The request carries a content that decodes to a workbook; the loop over the sheets
  ends with a statistics mapping that is not empty, so that the report is built; and
  building the report raises. Then \<^verbatim>\<open>process_excel_file\<close> raises the same exception, and
  the response of \<^verbatim>\<open>main\<close> is the single error body with status 500: it holds neither the
  statistics nor the outcome list.
\<close>

theorem report_failure_is_fatal:
  assumes "get_json req = Inr rb"
    and "body_content rb = Some content" and "content \<noteq> []"
    and "fname = (case body_filename rb of None \<Rightarrow> ''input.xlsx'' | Some f \<Rightarrow> f)"
    and "b64decode lib content = Inr (Workbook sheets)"
    and "process_sheets lib sheets (init_results fname, []) = (r, od)"
    and "summary r \<noteq> []"
    and "create_summary_excel lib (summary r) od = Inl e"
  shows "process_excel_file lib (Workbook sheets) fname = Inl e \<and>
         main lib req = \<lparr> body = ErrorJson e, status_code = 500, mimetype = ''application/json'' \<rparr> \<and>
         (\<forall>res. body (main lib req) \<noteq> ResultJson res)"
proof -
  have p: "process_excel_file lib (Workbook sheets) fname = Inl e"
    using assms(6,7,8) by (simp add: process_excel_file_def Let_def)
  have m: "main lib req = \<lparr> body = ErrorJson e, status_code = 500, mimetype = ''application/json'' \<rparr>"
    using assms(1,2,3,5) p unfolding assms(4) by (simp add: main_def Let_def)
  from p m show ?thesis by simp
qed

theorem report_failure_is_fatal_witness:
  "summary (fst (process_sheets (example_lib (Workbook [(''Sales'', Inr tab_df)]))
                   [(''Sales'', Inr tab_df)] (init_results ''input.xlsx'', []))) \<noteq> [] \<and>
   sheets_processed (fst (process_sheets (example_lib (Workbook [(''Sales'', Inr tab_df)]))
                   [(''Sales'', Inr tab_df)] (init_results ''input.xlsx'', []))) = [''Sales''] \<and>
   main (example_lib (Workbook [(''Sales'', Inr tab_df)]))
        \<lparr> get_json = Inr \<lparr> body_filename = None, body_content = Some ''UEsDBA=='' \<rparr> \<rparr> =
     \<lparr> body = ErrorJson ''IllegalCharacterError'', status_code = 500,
       mimetype = ''application/json'' \<rparr>"
proof -
  let ?d = "Workbook [(''Sales'', Inr tab_df)]"
  let ?lib = "example_lib ?d"
  let ?rb = "\<lparr> body_filename = None, body_content = Some ''UEsDBA=='' \<rparr>"
  let ?req = "\<lparr> get_json = Inr ?rb \<rparr>"
  let ?r = "(init_results ''input.xlsx'')
              \<lparr> summary := [(''Sales'', [(''Revenue'', column_stats ?lib [1])])],
                sheets_processed := [''Sales''] \<rparr>"
  have h1: "get_json ?req = Inr ?rb" by simp
  have h2: "body_content ?rb = Some ''UEsDBA==''" by simp
  have h3: "''UEsDBA=='' \<noteq> []" by simp
  have h4: "''input.xlsx'' = (case body_filename ?rb of None \<Rightarrow> ''input.xlsx'' | Some f \<Rightarrow> f)"
    by simp
  have h5: "b64decode ?lib ''UEsDBA=='' = Inr ?d" by (simp add: example_lib_def lib_with_std_def)
  have h6: "process_sheets ?lib [(''Sales'', Inr tab_df)] (init_results ''input.xlsx'', []) =
              (?r, [(''Sales'', tab_df)])"
    by (rule tab_sheets)
  have h7: "summary ?r \<noteq> []" by simp
  have h8: "create_summary_excel ?lib (summary ?r) [(''Sales'', tab_df)] = Inl ''IllegalCharacterError''"
    using tab_report[of ?d "column_stats ?lib [1]"] by simp
  from report_failure_is_fatal[OF h1 h2 h3 h4 h5 h6 h7 h8]
  have "main ?lib ?req =
          \<lparr> body = ErrorJson ''IllegalCharacterError'', status_code = 500,
            mimetype = ''application/json'' \<rparr>"
    by blast
  then show ?thesis unfolding h6 by simp
qed

text \<open>
  C3, as the code has it. The workbook and its file name are in the result exactly when
  the statistics mapping is not empty (the test of line 101), and the keys of the mapping
  are the names of the sheets that have a column of a number dtype and whose processing
  raised nothing (the test of line 78). Whether such a column holds a value plays no part:
  the entry of a sheet is stored also when it is empty.
\<close>

theorem workbook_iff_summary_nonempty:
  assumes "process_excel_file lib (Workbook sheets) fname = Inr res"
  shows "(output_file res \<noteq> None \<longleftrightarrow> summary res \<noteq> []) \<and>
         (output_filename res = (if summary res \<noteq> [] then Some (''processed_'' @ fname) else None)) \<and>
         fst ` set (summary res) =
           {name. \<exists>df r. (name, Inr df) \<in> set sheets \<and> has_number_column df \<and>
                         sheet_body lib (Inr df) = Inr r}"
proof -
  obtain r od where l: "process_sheets lib sheets (init_results fname, []) = (r, od)"
    by (cases "process_sheets lib sheets (init_results fname, [])")
  note n = loop_no_output[OF l]
  from run_output[OF assms l] have
    "(output_file res \<noteq> None \<longleftrightarrow> summary res \<noteq> []) \<and>
     (output_filename res = (if summary res \<noteq> [] then Some (''processed_'' @ fname) else None))"
    using n by auto
  moreover have "fst ` set (summary res) =
           {name. \<exists>df r. (name, Inr df) \<in> set sheets \<and> has_number_column df \<and>
                         sheet_body lib (Inr df) = Inr r}"
  proof -
    have "(\<exists>rd r. (name, rd) \<in> set sheets \<and> sheet_body lib rd = Inr (Some r)) \<longleftrightarrow>
          (\<exists>df r. (name, Inr df) \<in> set sheets \<and> has_number_column df \<and>
                  sheet_body lib (Inr df) = Inr r)" for name
    proof
      assume "\<exists>rd r. (name, rd) \<in> set sheets \<and> sheet_body lib rd = Inr (Some r)"
      then obtain rd st df where m: "(name, rd) \<in> set sheets"
        and b: "sheet_body lib rd = Inr (Some (st, df))"
        by auto
      from b have rd: "rd = Inr df" and nc: "numeric_cols df \<noteq> []"
        by (simp_all add: sheet_body_Some)
      from nc have "has_number_column df" by (simp add: numeric_cols_empty)
      with m b rd show "\<exists>df r. (name, Inr df) \<in> set sheets \<and> has_number_column df \<and>
                              sheet_body lib (Inr df) = Inr r"
        by blast
    next
      assume "\<exists>df r. (name, Inr df) \<in> set sheets \<and> has_number_column df \<and>
                     sheet_body lib (Inr df) = Inr r"
      then obtain df r where m: "(name, Inr df) \<in> set sheets" and h: "has_number_column df"
        and b: "sheet_body lib (Inr df) = Inr r"
        by blast
      from sheet_body_clean[OF b] h obtain st where "r = Some (st, df)" by blast
      with m b show "\<exists>rd r. (name, rd) \<in> set sheets \<and> sheet_body lib rd = Inr (Some r)"
        by blast
    qed
    then show ?thesis unfolding run_keys[OF assms] by simp
  qed
  ultimately show ?thesis by blast
qed

theorem workbook_iff_summary_nonempty_witness:
  "\<exists>res. process_excel_file (example_lib (Workbook [])) (Workbook [(''Data'', Inr blank_df)])
           ''input.xlsx'' = Inr res \<and>
         summary res = [(''Data'', [])] \<and> output_file res \<noteq> None \<and>
         output_filename res = Some ''processed_input.xlsx''"
proof -
  let ?lib = "example_lib (Workbook [])"
  from blank_run[of "Workbook []" "''input.xlsx''"] obtain res where
    run: "process_excel_file ?lib (Workbook [(''Data'', Inr blank_df)]) ''input.xlsx'' = Inr res"
    and s: "summary res = [(''Data'', [])]"
    by auto
  from workbook_iff_summary_nonempty[OF run] s
  have "output_file res \<noteq> None" "output_filename res = Some ''processed_input.xlsx''"
    by simp_all
  with run s show ?thesis by blast
qed

text \<open>
  C3 as stated fails on a sheet whose only numeric column is empty (a header with no
  value under it, which pandas reads as a column of NaN): no column of the workbook has a
  non-missing value, yet the mapping has an entry for the sheet, with no computed column,
  and the workbook is generated.
\<close>

theorem workbook_without_any_value:
  "\<not> (\<forall>lib sheets fname res.
         process_excel_file lib (Workbook sheets) fname = Inr res \<longrightarrow>
         (output_file res \<noteq> None \<longleftrightarrow>
            (\<exists>name df c vs. (name, Inr df) \<in> set sheets \<and>
                            (c, NumSeries vs) \<in> set (df_columns df) \<and> non_missing vs \<noteq> []))) \<and>
   \<not> (\<forall>lib sheets fname res name sheet_stats.
         process_excel_file lib (Workbook sheets) fname = Inr res \<longrightarrow>
         map_of (summary res) name = Some sheet_stats \<longrightarrow> sheet_stats \<noteq> [])"
proof -
  let ?lib = "example_lib (Workbook [])"
  from blank_run[of "Workbook []" "''input.xlsx''"] obtain res where
    run: "process_excel_file ?lib (Workbook [(''Data'', Inr blank_df)]) ''input.xlsx'' = Inr res"
    and s: "summary res = [(''Data'', [])]" and o: "output_file res \<noteq> None"
    by auto
  have nv: "\<not> (\<exists>name df c vs. (name, Inr df) \<in> set [(''Data'', Inr blank_df :: sheet_read)] \<and>
                  (c, NumSeries vs) \<in> set (df_columns df) \<and> non_missing vs \<noteq> [])"
    by (auto simp: blank_df_def non_missing_def)
  have 1: "\<not> (\<forall>lib sheets fname res.
         process_excel_file lib (Workbook sheets) fname = Inr res \<longrightarrow>
         (output_file res \<noteq> None \<longleftrightarrow>
            (\<exists>name df c vs. (name, Inr df) \<in> set sheets \<and>
                            (c, NumSeries vs) \<in> set (df_columns df) \<and> non_missing vs \<noteq> [])))"
  proof
    assume "\<forall>lib sheets fname res.
         process_excel_file lib (Workbook sheets) fname = Inr res \<longrightarrow>
         (output_file res \<noteq> None \<longleftrightarrow>
            (\<exists>name df c vs. (name, Inr df) \<in> set sheets \<and>
                            (c, NumSeries vs) \<in> set (df_columns df) \<and> non_missing vs \<noteq> []))"
    with run have "output_file res \<noteq> None \<longleftrightarrow>
            (\<exists>name df c vs. (name, Inr df) \<in> set [(''Data'', Inr blank_df :: sheet_read)] \<and>
                            (c, NumSeries vs) \<in> set (df_columns df) \<and> non_missing vs \<noteq> [])"
      by blast
    with o nv show False by blast
  qed
  have 2: "\<not> (\<forall>lib sheets fname res name sheet_stats.
         process_excel_file lib (Workbook sheets) fname = Inr res \<longrightarrow>
         map_of (summary res) name = Some sheet_stats \<longrightarrow> sheet_stats \<noteq> [])"
  proof
    assume "\<forall>lib sheets fname res name sheet_stats.
         process_excel_file lib (Workbook sheets) fname = Inr res \<longrightarrow>
         map_of (summary res) name = Some sheet_stats \<longrightarrow> sheet_stats \<noteq> []"
    moreover have "map_of (summary res) ''Data'' = Some []" by (simp add: s)
    ultimately have "([] :: sheet_stats) \<noteq> []" using run by blast
    then show False by simp
  qed
  from 1 2 show ?thesis ..
qed

text \<open>
  C4. When the body of a sheet raises, the iteration appends
  \<open>name (ERROR: message)\<close> to the outcome list and changes neither the statistics
  mapping nor the retained tables; the loop goes on with the remaining sheets; the
  mapping and the retained tables at the end are those of the workbook without that
  sheet; the annotated string is in the final list; and when no other sheet bears the
  name, the mapping has no entry for it.
\<close>

theorem sheet_error_recorded_and_skipped:
  assumes "sheet_body lib rd = Inl msg"
  shows "process_sheet lib (name, rd) st =
           ((fst st)\<lparr> sheets_processed :=
                        sheets_processed (fst st) @ [name @ '' (ERROR: '' @ msg @ '')''] \<rparr>, snd st) \<and>
         process_sheets lib (before @ (name, rd) # after) st =
           process_sheets lib after (process_sheet lib (name, rd) (process_sheets lib before st)) \<and>
         summary (fst (process_sheets lib (before @ (name, rd) # after) st)) =
           summary (fst (process_sheets lib (before @ after) st)) \<and>
         snd (process_sheets lib (before @ (name, rd) # after) st) =
           snd (process_sheets lib (before @ after) st) \<and>
         name @ '' (ERROR: '' @ msg @ '')'' \<in>
           set (sheets_processed (fst (process_sheets lib (before @ (name, rd) # after) st))) \<and>
         (name \<notin> fst ` set (before @ after) \<longrightarrow> name \<notin> fst ` set (summary (fst st)) \<longrightarrow>
           map_of (summary (fst (process_sheets lib (before @ (name, rd) # after) st))) name = None)"
proof -
  have step: "process_sheet lib (name, rd) st =
           ((fst st)\<lparr> sheets_processed :=
                        sheets_processed (fst st) @ [name @ '' (ERROR: '' @ msg @ '')''] \<rparr>, snd st)"
    using assms by (simp add: process_sheet_def error_entry_def)
  have cont: "process_sheets lib (before @ (name, rd) # after) st =
           process_sheets lib after (process_sheet lib (name, rd) (process_sheets lib before st))"
    by (simp add: process_sheets_append)
  have e: "process_sheet lib (name, rd) st' =
      ((fst st')\<lparr> sheets_processed := sheets_processed (fst st') @ [error_entry name msg] \<rparr>, snd st')"
    for st'
    using assms by (simp add: process_sheet_def)
  let ?m = "process_sheets lib before st"
  have eq: "summary (fst (process_sheets lib after (process_sheet lib (name, rd) ?m))) =
        summary (fst (process_sheets lib after ?m)) \<and>
        snd (process_sheets lib after (process_sheet lib (name, rd) ?m)) = snd (process_sheets lib after ?m)"
    by (rule process_sheets_indep) (simp_all add: e)
  have s: "summary (fst (process_sheets lib (before @ (name, rd) # after) st)) =
           summary (fst (process_sheets lib (before @ after) st))"
    using eq by (simp add: process_sheets_append)
  have a: "snd (process_sheets lib (before @ (name, rd) # after) st) =
           snd (process_sheets lib (before @ after) st)"
    using eq by (simp add: process_sheets_append)
  have m: "name @ '' (ERROR: '' @ msg @ '')'' \<in>
           set (sheets_processed (fst (process_sheets lib (before @ (name, rd) # after) st)))"
    using assms by (simp add: process_sheets_sheets_processed outcome_entry_def error_entry_def)
  have n: "map_of (summary (fst (process_sheets lib (before @ (name, rd) # after) st))) name = None"
    if "name \<notin> fst ` set (before @ after)" "name \<notin> fst ` set (summary (fst st))"
  proof -
    have "name \<notin> fst ` set (summary (fst (process_sheets lib (before @ after) st)))"
      using that unfolding process_sheets_keys by force
    then show ?thesis unfolding s by (simp add: map_of_eq_None_iff)
  qed
  from step cont s a m n show ?thesis by blast
qed

theorem sheet_error_recorded_and_skipped_witness:
  "sheet_body (example_lib (Workbook [])) (Inl ''boom'') = Inl ''boom'' \<and>
   sheets_processed (fst (process_sheets (example_lib (Workbook [])) ([(''Sales'', Inr sales_df)] @ (''Bad'', Inl ''boom'') # [])
     (init_results ''input.xlsx'', []))) = [''Sales'', ''Bad (ERROR: boom)''] \<and>
   map_of (summary (fst (process_sheets (example_lib (Workbook [])) ([(''Sales'', Inr sales_df)] @ (''Bad'', Inl ''boom'') # [])
     (init_results ''input.xlsx'', [])))) ''Bad'' = None"
proof -
  let ?S0 = "(init_results ''input.xlsx'', []) :: results \<times> all_data"
  let ?sales = "(''Sales'', Inr sales_df) :: string \<times> sheet_read"
  let ?bad = "(''Bad'', Inl ''boom'') :: string \<times> sheet_read"
  have e: "exact_on (example_lib (Workbook [])) [10, 20, 30]" by (rule exact_on_example) simp
  have h: "sheet_body (example_lib (Workbook [])) (Inl ''boom'') = Inl ''boom''" by (simp add: sheet_body_def)
  note t = sheet_error_recorded_and_skipped[OF h, of "''Bad''" ?S0 "[?sales]" "[]"]
  note t1 = sheet_error_recorded_and_skipped[OF h, of "''Bad''" "process_sheets (example_lib (Workbook [])) [?sales] ?S0" "[]" "[]"]
  have c2: "process_sheets (example_lib (Workbook [])) ([?sales] @ ?bad # []) ?S0 =
      process_sheets (example_lib (Workbook [])) [] (process_sheet (example_lib (Workbook [])) ?bad (process_sheets (example_lib (Workbook [])) [?sales] ?S0))"
    using t by (rule conjunct1[OF conjunct2])
  have c1: "process_sheet (example_lib (Workbook [])) ?bad (process_sheets (example_lib (Workbook [])) [?sales] ?S0) =
      ((fst (process_sheets (example_lib (Workbook [])) [?sales] ?S0))
         \<lparr> sheets_processed := sheets_processed (fst (process_sheets (example_lib (Workbook [])) [?sales] ?S0)) @
                                 [''Bad'' @ '' (ERROR: '' @ ''boom'' @ '')''] \<rparr>,
       snd (process_sheets (example_lib (Workbook [])) [?sales] ?S0))"
    using t1 by (rule conjunct1)
  have "sheets_processed (fst (process_sheets (example_lib (Workbook [])) ([?sales] @ ?bad # []) ?S0)) =
      sheets_processed (fst (process_sheets (example_lib (Workbook [])) [?sales] ?S0)) @ [''Bad'' @ '' (ERROR: '' @ ''boom'' @ '')'']"
    unfolding c2 process_sheets.simps(1) c1 by simp
  then have 1: "sheets_processed (fst (process_sheets (example_lib (Workbook [])) ([?sales] @ ?bad # []) ?S0)) =
      [''Sales'', ''Bad (ERROR: boom)'']"
    unfolding sales_sheets[OF e] by simp
  have p1: "''Bad'' \<notin> fst ` set ([?sales] @ [])" by simp
  have p2: "''Bad'' \<notin> fst ` set (summary (fst ?S0))" by (simp add: init_results_def)
  note t6 = t[THEN conjunct2, THEN conjunct2, THEN conjunct2, THEN conjunct2, THEN conjunct2]
  have 2: "map_of (summary (fst (process_sheets (example_lib (Workbook [])) ([?sales] @ ?bad # []) ?S0))) ''Bad'' = None"
    using t6[rule_format, OF p1 p2] .
  from h 1 2 show ?thesis by blast
qed

text \<open>
  C6. The workbook has the one sheet \<open>Sales\<close>, whose frame (rectangular, with distinct
  labels and no duration) has the column \<open>Revenue\<close> with the values 10, 20, 30, on which
  pandas rounds nothing. Then the entry of \<open>Revenue\<close> under \<open>Sales\<close> in the statistics
  mapping of the result is mean 20, median 20, standard deviation 10, minimum 10, maximum
  30, count 3, and the sheets of the generated workbook are \<open>Summary_Statistics\<close> and
  \<open>Original_Sales\<close>.
\<close>

theorem sales_scenario:
  assumes "process_excel_file lib (Workbook [(''Sales'', Inr df)]) fname = Inr res"
    and "wf_df df" and "no_durations df"
    and "(''Revenue'', NumSeries [Float 10, Float 20, Float 30]) \<in> set (df_columns df)"
    and "exact_on lib [10, 20, 30]"
  shows "\<exists>sheet_stats wb.
           summary res = [(''Sales'', sheet_stats)] \<and>
           map_of sheet_stats ''Revenue'' =
             Some \<lparr> stat_mean = Float 20, stat_median = Float 20, stat_std = Float 10,
                    stat_min = Float 10, stat_max = Float 30, stat_count = 3 \<rparr> \<and>
           output_file res = Some wb \<and>
           map ws_title wb = [''Summary_Statistics'', ''Original_Sales'']"
proof -
  from assms(2) have d: "distinct (map fst (df_columns df))" by (simp add: wf_df_def)
  have nc: "numeric_cols df \<noteq> []" using numeric_cols_mem[OF assms(4)] by auto
  have dn: "dropna [Float 10, Float 20, Float 30] \<noteq> []" by simp
  from sheet_body_total[OF d assms(3), of lib] nc assms(4) dn obtain st where
    b: "sheet_body lib (Inr df) = Inr (Some (st, df))" and
    e: "map_of st ''Revenue'' = Some (column_stats lib (dropna [Float 10, Float 20, Float 30]))"
    by blast
  have e': "map_of st ''Revenue'' =
             Some \<lparr> stat_mean = Float 20, stat_median = Float 20, stat_std = Float 10,
                    stat_min = Float 10, stat_max = Float 30, stat_count = 3 \<rparr>"
    using e column_stats_sales[OF assms(5)] by (simp add: sales_stats_def)
  let ?r = "(init_results fname)\<lparr> summary := [(''Sales'', st)], sheets_processed := [''Sales''] \<rparr>"
  have l: "process_sheets lib [(''Sales'', Inr df)] (init_results fname, []) = (?r, [(''Sales'', df)])"
    by (simp add: process_sheet_def b init_results_def)
  from run_output[OF assms(1) l] obtain wb where
    wb: "create_summary_excel lib (summary ?r) [(''Sales'', df)] = Inr wb" and
    res: "res = ?r\<lparr> output_file := Some wb, output_filename := Some (''processed_'' @ fname) \<rparr>"
    by auto
  from create_summary_excel_titles[OF wb]
  have t: "map ws_title wb = [''Summary_Statistics'', ''Original_Sales'']" by simp
  from res e' t show ?thesis by simp
qed

theorem sales_scenario_witness:
  "\<exists>res sheet_stats wb.
     process_excel_file (example_lib (Workbook [])) (Workbook [(''Sales'', Inr sales_df)])
       ''sales.xlsx'' = Inr res \<and>
     summary res = [(''Sales'', sheet_stats)] \<and>
     map_of sheet_stats ''Revenue'' =
       Some \<lparr> stat_mean = Float 20, stat_median = Float 20, stat_std = Float 10,
              stat_min = Float 10, stat_max = Float 30, stat_count = 3 \<rparr> \<and>
     output_file res = Some wb \<and>
     map ws_title wb = [''Summary_Statistics'', ''Original_Sales'']"
proof -
  let ?lib = "example_lib (Workbook [])"
  from sales_run[of "Workbook []" "''sales.xlsx''"] obtain res where
    run: "process_excel_file ?lib (Workbook [(''Sales'', Inr sales_df)]) ''sales.xlsx'' = Inr res"
    by auto
  have h2: "wf_df sales_df" by (simp add: wf_df_def sales_df_def df_len_def)
  have h3: "no_durations sales_df" by (simp add: no_durations_def sales_df_def)
  have h4: "(''Revenue'', NumSeries [Float 10, Float 20, Float 30]) \<in> set (df_columns sales_df)"
    by (simp add: sales_df_def)
  have h5: "exact_on ?lib [10, 20, 30]" by (rule exact_on_example) simp
  from sales_scenario[OF run h2 h3 h4 h5] obtain ss wb where
    c: "summary res = [(''Sales'', ss)]"
       "map_of ss ''Revenue'' =
          Some \<lparr> stat_mean = Float 20, stat_median = Float 20, stat_std = Float 10,
                 stat_min = Float 10, stat_max = Float 30, stat_count = 3 \<rparr>"
       "output_file res = Some wb"
       "map ws_title wb = [''Summary_Statistics'', ''Original_Sales'']"
    by (elim exE conjE)
  show ?thesis
    by (intro exI[of _ res] exI[of _ ss] exI[of _ wb] conjI) (rule run c)+
qed

text \<open>
  C9. No sheet name holds a colon (Excel allows none). Then the keys of the statistics
  mapping of the result are exactly the entries of the outcome list that bear no
  annotation. And the result has no workbook when the mapping is empty; otherwise the
  sheets of its workbook are \<open>Summary_Statistics\<close> followed by one \<open>Original_\<close> copy for
  each key of the mapping, in the order of the keys.
\<close>

theorem keys_entries_and_copies_agree:
  assumes "process_excel_file lib (Workbook sheets) fname = Inr res"
    and "\<forall>name \<in> fst ` set sheets. CHR '':'' \<notin> set name"
  shows "fst ` set (summary res) = {s \<in> set (sheets_processed res). \<not> annotated s} \<and>
         ((summary res = [] \<and> output_file res = None) \<or>
          (\<exists>wb. output_file res = Some wb \<and>
                map ws_title wb =
                  ''Summary_Statistics'' # map (\<lambda>name. ''Original_'' @ name) (map fst (summary res))))"
proof -
  have k: "fst ` set (summary res) = {s \<in> set (sheets_processed res). \<not> annotated s}"
  proof (intro set_eqI iffI)
    fix s assume "s \<in> fst ` set (summary res)"
    then obtain rd r where m: "(s, rd) \<in> set sheets" and b: "sheet_body lib rd = Inr (Some r)"
      unfolding run_keys[OF assms(1)] by blast
    have "outcome_entry lib (s, rd) = [s]" using b by (simp add: outcome_entry_def)
    with m have "s \<in> set (concat (map (outcome_entry lib) sheets))" by force
    then have 1: "s \<in> set (sheets_processed res)" unfolding run_sheets_processed[OF assms(1)] .
    from m assms(2) have "CHR '':'' \<notin> set s" by force
    with annotated_colon[of s] have "\<not> annotated s" by blast
    with 1 show "s \<in> {s \<in> set (sheets_processed res). \<not> annotated s}" by simp
  next
    fix s assume "s \<in> {s \<in> set (sheets_processed res). \<not> annotated s}"
    then have 1: "s \<in> set (concat (map (outcome_entry lib) sheets))" and 2: "\<not> annotated s"
      unfolding run_sheets_processed[OF assms(1)] by simp_all
    from 1 obtain sh where sh: "sh \<in> set sheets" "s \<in> set (outcome_entry lib sh)" by auto
    from sh(2) 2 have "\<exists>r. sheet_body lib (snd sh) = Inr (Some r) \<and> s = fst sh"
      using annotated_error_entry[of "fst sh"]
      by (auto simp: outcome_entry_def split: sum.splits option.splits)
    then obtain r where "sheet_body lib (snd sh) = Inr (Some r)" "s = fst sh" by blast
    moreover from sh(1) have "(fst sh, snd sh) \<in> set sheets" by simp
    ultimately have "\<exists>rd r. (s, rd) \<in> set sheets \<and> sheet_body lib rd = Inr (Some r)"
      by blast
    then show "s \<in> fst ` set (summary res)" unfolding run_keys[OF assms(1)] by simp
  qed
  obtain r od where l: "process_sheets lib sheets (init_results fname, []) = (r, od)"
    by (cases "process_sheets lib sheets (init_results fname, [])")
  note n = loop_no_output[OF l]
  note t = loop_tables[OF l]
  from run_output[OF assms(1) l]
  have w: "(summary res = [] \<and> output_file res = None) \<or>
          (\<exists>wb. output_file res = Some wb \<and>
                map ws_title wb =
                  ''Summary_Statistics'' # map (\<lambda>name. ''Original_'' @ name) (map fst (summary res)))"
  proof
    assume "summary r = [] \<and> res = r"
    with n show ?thesis by simp
  next
    assume "summary r \<noteq> [] \<and>
          (\<exists>wb. create_summary_excel lib (summary r) od = Inr wb \<and>
                res = r\<lparr> output_file := Some wb,
                         output_filename := Some (''processed_'' @ fname) \<rparr>)"
    then obtain wb where wb: "create_summary_excel lib (summary r) od = Inr wb"
      and res: "res = r\<lparr> output_file := Some wb, output_filename := Some (''processed_'' @ fname) \<rparr>"
      by blast
    have "map (\<lambda>item. ''Original_'' @ fst item) od = map (\<lambda>name. ''Original_'' @ name) (map fst od)"
      by simp
    with create_summary_excel_titles[OF wb] t res
    have "output_file res = Some wb \<and>
          map ws_title wb =
            ''Summary_Statistics'' # map (\<lambda>name. ''Original_'' @ name) (map fst (summary res))"
      by simp
    then show ?thesis by (intro disjI2 exI[of _ wb])
  qed
  from k w show ?thesis ..
qed

theorem keys_entries_and_copies_agree_witness:
  "\<exists>res wb.
     process_excel_file (example_lib (Workbook []))
       (Workbook [(''Sales'', Inr sales_df), (''Bad'', Inl ''boom'')]) ''input.xlsx'' = Inr res \<and>
     sheets_processed res = [''Sales'', ''Bad (ERROR: boom)''] \<and>
     fst ` set (summary res) = {s \<in> set (sheets_processed res). \<not> annotated s} \<and>
     fst ` set (summary res) = {''Sales''} \<and>
     output_file res = Some wb \<and>
     map ws_title wb = [''Summary_Statistics'', ''Original_Sales'']"
proof -
  let ?lib = "example_lib (Workbook [])"
  let ?shs = "[(''Sales'', Inr sales_df), (''Bad'', Inl ''boom'')] :: (string \<times> sheet_read) list"
  from sales_bad_run[of "Workbook []" "''input.xlsx''"] obtain wb0 where
    run0: "process_excel_file ?lib (Workbook ?shs) ''input.xlsx'' =
       Inr (((init_results ''input.xlsx'')
               \<lparr> summary := [(''Sales'', [(''Revenue'', sales_stats)])],
                 sheets_processed := [''Sales'', error_entry ''Bad'' ''boom''] \<rparr>)
              \<lparr> output_file := Some wb0, output_filename := Some (''processed_'' @ ''input.xlsx'') \<rparr>)"
    by (elim exE)
  define res where "res = ((init_results ''input.xlsx'')
               \<lparr> summary := [(''Sales'', [(''Revenue'', sales_stats)])],
                 sheets_processed := [''Sales'', error_entry ''Bad'' ''boom''] \<rparr>)
              \<lparr> output_file := Some wb0, output_filename := Some (''processed_'' @ ''input.xlsx'') \<rparr>"
  have run: "process_excel_file ?lib (Workbook ?shs) ''input.xlsx'' = Inr res"
    unfolding res_def by (rule run0)
  have s: "summary res = [(''Sales'', [(''Revenue'', sales_stats)])]" by (simp add: res_def)
  have p: "sheets_processed res = [''Sales'', ''Bad (ERROR: boom)'']"
    by (simp add: res_def error_entry_def)
  have h: "\<forall>name \<in> fst ` set ?shs. CHR '':'' \<notin> set name" by simp
  note t = keys_entries_and_copies_agree[OF run h]
  from t have 1: "fst ` set (summary res) = {s \<in> set (sheets_processed res). \<not> annotated s}"
    by (rule conjunct1)
  have ne: "\<not> (summary res = [] \<and> output_file res = None)" by (simp add: s)
  from t[THEN conjunct2] have
    "\<exists>wb. output_file res = Some wb \<and>
          map ws_title wb =
            ''Summary_Statistics'' # map (\<lambda>name. ''Original_'' @ name) (map fst (summary res))"
  proof (rule disjE)
    assume "summary res = [] \<and> output_file res = None"
    with ne show ?thesis ..
  next
    assume "\<exists>wb. output_file res = Some wb \<and>
          map ws_title wb =
            ''Summary_Statistics'' # map (\<lambda>name. ''Original_'' @ name) (map fst (summary res))"
    then show ?thesis .
  qed
  then obtain wb where 2: "output_file res = Some wb"
    and 3: "map ws_title wb =
            ''Summary_Statistics'' # map (\<lambda>name. ''Original_'' @ name) (map fst (summary res))"
    by (elim exE conjE)
  from 3 have 4: "map ws_title wb = [''Summary_Statistics'', ''Original_Sales'']"
    unfolding s by simp
  have 5: "fst ` set (summary res) = {''Sales''}" unfolding s by simp
  show ?thesis
    by (intro exI[of _ res] exI[of _ wb] conjI) (rule run p 1 5 2 4)+
qed

text \<open>
  C7. Take a sheet of the workbook whose table is retained: it was read, its frame is
  rectangular with distinct labels, it has a column of a number dtype and no duration.
  Then the generated workbook has a sheet titled \<open>Original_\<close> followed by the name of the
  sheet, in which row 1 holds the labels of the columns, in their order and with the
  header styling, and the cell at row \<open>k + 2\<close> and column \<open>j + 1\<close> holds the value of
  row \<open>k\<close> of column \<open>j\<close> of the table, unstyled.
\<close>

theorem original_sheet_round_trip:
  assumes "process_excel_file lib (Workbook sheets) fname = Inr res"
    and "distinct (map fst sheets)" and "(name, Inr df) \<in> set sheets"
    and "wf_df df" and "no_durations df" and "has_number_column df"
  shows "\<exists>wb ws.
           output_file res = Some wb \<and> ws \<in> set wb \<and> ws_title ws = ''Original_'' @ name \<and>
           (\<forall>j < length (df_columns df).
              cell_at ws (1, j + 1) =
                Some \<lparr> cell_value = Text (fst (df_columns df ! j)),
                       cell_fill = Some header_fill, cell_font = Some header_font \<rparr>) \<and>
           (\<forall>k < df_len df. \<forall>j < length (df_columns df).
              cell_at ws (k + 2, j + 1) =
                Some \<lparr> cell_value = series_values (snd (df_columns df ! j)) ! k,
                       cell_fill = None, cell_font = None \<rparr>)"
proof -
  obtain r od where l: "process_sheets lib sheets (init_results fname, []) = (r, od)"
    by (cases "process_sheets lib sheets (init_results fname, [])")
  from loop_retains[OF l assms(2-6)] obtain i where
    ne: "summary r \<noteq> []" and i: "i < length od" "od ! i = (name, df)"
    by blast
  from run_output[OF assms(1) l] ne obtain wb where
    wb: "create_summary_excel lib (summary r) od = Inr wb" and
    res: "res = r\<lparr> output_file := Some wb, output_filename := Some (''processed_'' @ fname) \<rparr>"
    by blast
  from create_summary_excel_nth[OF wb i(1)] i(2) obtain ws where
    ws: "original_sheet lib (name, df) = Inr ws" and
    n: "wb ! Suc i = adjust_widths lib ws" "Suc i < length wb"
    by auto
  let ?ws = "adjust_widths lib ws"
  note x = adjust_widths_extends[of ws lib]
  have 1: "output_file res = Some wb" by (simp add: res)
  have 2: "?ws \<in> set wb" using n nth_mem[of "Suc i" wb] by simp
  have 3: "ws_title ?ws = ''Original_'' @ name"
    using original_sheet_Inr(1)[OF ws] by (simp add: adjust_widths_title)
  have 4: "\<forall>j < length (df_columns df).
              cell_at ?ws (1, j + 1) =
                Some \<lparr> cell_value = Text (fst (df_columns df ! j)),
                       cell_fill = Some header_fill, cell_font = Some header_font \<rparr>"
    using original_sheet_cells(1)[OF ws] ws_extends_cell[OF x] by blast
  have 5: "\<forall>k < df_len df. \<forall>j < length (df_columns df).
              cell_at ?ws (k + 2, j + 1) =
                Some \<lparr> cell_value = series_values (snd (df_columns df ! j)) ! k,
                       cell_fill = None, cell_font = None \<rparr>"
  proof (intro allI impI)
    fix k j assume "k < df_len df" "j < length (df_columns df)"
    from original_sheet_cells(2)[OF ws this]
    have "cell_at ws (k + 2, j + 1) =
            Some \<lparr> cell_value = series_values (snd (df_columns df ! j)) ! k,
                   cell_fill = None, cell_font = None \<rparr>"
      by (simp add: blank_cell_def)
    then show "cell_at ?ws (k + 2, j + 1) =
            Some \<lparr> cell_value = series_values (snd (df_columns df ! j)) ! k,
                   cell_fill = None, cell_font = None \<rparr>"
      by (rule ws_extends_cell[OF x])
  qed
  show ?thesis
    by (intro exI[of _ wb] exI[of _ ?ws] conjI) (rule 1 2 3 4 5)+
qed

theorem original_sheet_round_trip_witness:
  "\<exists>res wb ws.
     process_excel_file (example_lib (Workbook [])) (Workbook [(''Sales'', Inr bonus_df)])
       ''input.xlsx'' = Inr res \<and>
     output_file res = Some wb \<and> ws \<in> set wb \<and> ws_title ws = ''Original_Sales'' \<and>
     map_option cell_value (cell_at ws (1, 1)) = Some (Text ''Revenue'') \<and>
     map_option cell_value (cell_at ws (1, 2)) = Some (Text ''Bonus'') \<and>
     map_option cell_value (cell_at ws (2, 1)) = Some (Number (Float 10)) \<and>
     map_option cell_value (cell_at ws (2, 2)) = Some (Number NaN) \<and>
     map_option cell_value (cell_at ws (3, 2)) = Some (Number (Float 5)) \<and>
     map_option cell_value (cell_at ws (4, 1)) = Some (Number (Float 30))"
proof -
  let ?lib = "example_lib (Workbook [])"
  from bonus_run[of "Workbook []" "''input.xlsx''"] obtain res where
    run: "process_excel_file ?lib (Workbook [(''Sales'', Inr bonus_df)]) ''input.xlsx'' = Inr res"
    by blast
  have h2: "distinct (map fst [(''Sales'', Inr bonus_df :: sheet_read)])" by simp
  have h3: "(''Sales'', Inr bonus_df) \<in> set [(''Sales'', Inr bonus_df :: sheet_read)]" by simp
  have h4: "wf_df bonus_df" by (simp add: wf_df_def bonus_df_def df_len_def)
  have h5: "no_durations bonus_df" by (simp add: no_durations_def bonus_df_def)
  have h6: "has_number_column bonus_df" by (simp add: has_number_column_def bonus_df_def)
  from original_sheet_round_trip[OF run h2 h3 h4 h5 h6] obtain wb ws where
    o: "output_file res = Some wb" "ws \<in> set wb" "ws_title ws = ''Original_'' @ ''Sales''" and
    hd: "\<forall>j < length (df_columns bonus_df).
              cell_at ws (1, j + 1) =
                Some \<lparr> cell_value = Text (fst (df_columns bonus_df ! j)),
                       cell_fill = Some header_fill, cell_font = Some header_font \<rparr>" and
    dt: "\<forall>k < df_len bonus_df. \<forall>j < length (df_columns bonus_df).
              cell_at ws (k + 2, j + 1) =
                Some \<lparr> cell_value = series_values (snd (df_columns bonus_df ! j)) ! k,
                       cell_fill = None, cell_font = None \<rparr>"
    by (elim exE conjE)
  have len: "length (df_columns bonus_df) = 2" "df_len bonus_df = 3"
    by (simp_all add: bonus_df_def df_len_def)
  have a: "map_option cell_value (cell_at ws (1, 1)) = Some (Text ''Revenue'')"
    using hd[rule_format, of 0] len by (simp add: bonus_df_def eval_nat_numeral)
  have b: "map_option cell_value (cell_at ws (1, 2)) = Some (Text ''Bonus'')"
    using hd[rule_format, of 1] len by (simp add: bonus_df_def eval_nat_numeral)
  have c: "map_option cell_value (cell_at ws (2, 1)) = Some (Number (Float 10))"
    using dt[rule_format, of 0 0] len by (simp add: bonus_df_def eval_nat_numeral)
  have d: "map_option cell_value (cell_at ws (2, 2)) = Some (Number NaN)"
    using dt[rule_format, of 0 1] len by (simp add: bonus_df_def eval_nat_numeral)
  have e: "map_option cell_value (cell_at ws (3, 2)) = Some (Number (Float 5))"
    using dt[rule_format, of 1 1] len by (simp add: bonus_df_def eval_nat_numeral)
  have f: "map_option cell_value (cell_at ws (4, 1)) = Some (Number (Float 30))"
    using dt[rule_format, of 2 0] len by (simp add: bonus_df_def eval_nat_numeral)
  from o(3) have t: "ws_title ws = ''Original_Sales''" by simp
  show ?thesis
    by (intro exI[of _ res] exI[of _ wb] exI[of _ ws] conjI) (rule run o(1,2) t a b c d e f)+
qed

text \<open>
  C8. Take the table at a position of the retained tables, with distinct labels, in a run
  of \<^verbatim>\<open>create_summary_excel\<close> that returns a workbook. Its copy is the sheet after the
  summary sheet at that position. The copy holds one bar chart, anchored at \<open>H2\<close>, when
  the table has a column of a number dtype and at least 2 rows and building the chart
  does not raise; it holds no chart otherwise. The chart plots the first such column, from
  row 2 to row \<open>min 20 (rows + 1)\<close>, which is at most 19 rows. And whatever building the
  chart does, raise or not, the copy of the table is built and its title, cells and widths
  are the same.
\<close>

theorem chart_policy:
  assumes "create_summary_excel lib sd od = Inr wb"
    and "i < length od" and "od ! i = (name, df)"
    and "distinct (map fst (df_columns df))"
  shows "ws_title (wb ! Suc i) = ''Original_'' @ name \<and>
         ws_charts (wb ! Suc i) =
           (if has_number_column df \<and> 2 \<le> df_len df \<and> chart_error lib name = None
            then [(\<lparr> chart_title = ''Data Overview - '' @ name,
                     y_axis_title = ''Values'', x_axis_title = ''Records'',
                     chart_data = [\<lparr> ref_min_col = first_number_column df + 1, ref_min_row = 2,
                                     ref_max_row = min 20 (df_len df + 1) \<rparr>] \<rparr>, ''H2'')]
            else []) \<and>
         min 20 (df_len df + 1) + 1 - 2 \<le> 19 \<and>
         (\<forall>f. \<exists>ws'. original_sheet (lib\<lparr> chart_error := f \<rparr>) (name, df) = Inr ws' \<and>
                    without_charts (adjust_widths (lib\<lparr> chart_error := f \<rparr>) ws') =
                      without_charts (wb ! Suc i))"
proof -
  from create_summary_excel_nth[OF assms(1,2)] assms(3) obtain ws where
    ws: "original_sheet lib (name, df) = Inr ws" and n: "wb ! Suc i = adjust_widths lib ws"
    by auto
  from original_sheet_core[OF ws] obtain ws2 where
    c: "ws_charts ws2 = []" and a: "ws = add_chart lib name df ws2" and
    f: "\<And>f. original_sheet (lib\<lparr> chart_error := f \<rparr>) (name, df) =
              Inr (add_chart (lib\<lparr> chart_error := f \<rparr>) name df ws2)"
    by blast
  have 1: "ws_title (wb ! Suc i) = ''Original_'' @ name"
    unfolding n using original_sheet_Inr(1)[OF ws] by (simp add: adjust_widths_title)
  have 2: "ws_charts (wb ! Suc i) =
           (if has_number_column df \<and> 2 \<le> df_len df \<and> chart_error lib name = None
            then [(\<lparr> chart_title = ''Data Overview - '' @ name,
                     y_axis_title = ''Values'', x_axis_title = ''Records'',
                     chart_data = [\<lparr> ref_min_col = first_number_column df + 1, ref_min_row = 2,
                                     ref_max_row = min 20 (df_len df + 1) \<rparr>] \<rparr>, ''H2'')]
            else [])"
    unfolding n adjust_widths_charts a by (rule add_chart_charts[OF assms(4) c])
  have 3: "min 20 (df_len df + 1) + 1 - 2 \<le> 19" by simp
  have 4: "\<exists>ws'. original_sheet (lib\<lparr> chart_error := g \<rparr>) (name, df) = Inr ws' \<and>
                 without_charts (adjust_widths (lib\<lparr> chart_error := g \<rparr>) ws') =
                   without_charts (wb ! Suc i)" for g
  proof -
    let ?ws' = "add_chart (lib\<lparr> chart_error := g \<rparr>) name df ws2"
    have "without_charts (adjust_widths (lib\<lparr> chart_error := g \<rparr>) ?ws') =
            adjust_widths lib (without_charts ?ws')"
      by (simp add: adjust_widths_chart_error adjust_widths_without)
    also have "\<dots> = adjust_widths lib (without_charts ws)"
      by (simp add: add_chart_without a)
    also have "\<dots> = without_charts (wb ! Suc i)"
      by (simp add: adjust_widths_without n)
    finally show ?thesis using f[of g] by blast
  qed
  from 1 2 3 4 show ?thesis by blast
qed

theorem chart_policy_witness:
  "\<exists>wb. create_summary_excel (example_lib (Workbook [])) [(''Stock'', [])] [(''Stock'', long_df)] =
          Inr wb \<and>
        ws_title (wb ! 1) = ''Original_Stock'' \<and>
        ws_charts (wb ! 1) =
          [(\<lparr> chart_title = ''Data Overview - Stock'',
               y_axis_title = ''Values'', x_axis_title = ''Records'',
               chart_data = [\<lparr> ref_min_col = 2, ref_min_row = 2, ref_max_row = 20 \<rparr>] \<rparr>, ''H2'')]"
proof -
  let ?lib = "example_lib (Workbook [])"
  let ?od = "[(''Stock'', long_df)]"
  from long_report[of "Workbook []"] obtain wb where
    wb: "create_summary_excel ?lib [(''Stock'', [])] ?od = Inr wb"
    by (cases "create_summary_excel ?lib [(''Stock'', [])] ?od") auto
  have h2: "0 < length ?od" by simp
  have h3: "?od ! 0 = (''Stock'', long_df)" by simp
  have h4: "distinct (map fst (df_columns long_df))" by (simp add: long_df_def)
  note t = chart_policy[OF wb h2 h3 h4]
  have g: "has_number_column long_df \<and> 2 \<le> df_len long_df \<and> chart_error ?lib ''Stock'' = None"
    by (simp add: has_number_column_def long_df_def df_len_def example_lib_def lib_with_std_def)
  have fc: "first_number_column long_df = 1" by (simp add: first_number_column_def long_df_def)
  have dl: "df_len long_df = 25" by (simp add: long_df_def df_len_def)
  from t have 1: "ws_title (wb ! 1) = ''Original_Stock''" by simp
  have
    2: "ws_charts (wb ! 1) =
          [(\<lparr> chart_title = ''Data Overview - Stock'',
               y_axis_title = ''Values'', x_axis_title = ''Records'',
               chart_data = [\<lparr> ref_min_col = 2, ref_min_row = 2, ref_max_row = 20 \<rparr>] \<rparr>, ''H2'')]"
    using t[THEN conjunct2, THEN conjunct1] g by (simp add: fc dl)
  show ?thesis
    by (intro exI[of _ wb] conjI) (rule wb 1 2)+
qed

end
